theory Spec2Isabelle
  imports Complex_Main
begin

section \<open>A convolutional network written from scratch: the embedding\<close>

text \<open>
  The notebook \<^verbatim>\<open>ScratchImplementation.ipynb\<close> defines three layers (\<^verbatim>\<open>Conv2D\<close>,
  \<^verbatim>\<open>MaxPooling2D\<close>, \<^verbatim>\<open>Dense\<close>), the helpers \<^verbatim>\<open>softmax\<close> and
  \<^verbatim>\<open>cross_entropy_loss\<close>, and the drivers \<^verbatim>\<open>forward\<close> and \<^verbatim>\<open>train\<close>.

  Arrays are numpy arrays of double precision numbers. Here an array is a record of its
  shape (numpy keeps the shape also when a dimension is zero) and of its elements as nested
  lists in row-major order, and the numbers are the reals: rounding, infinities and NaN of
  IEEE arithmetic are not part of this model. The rank of an array is fixed by its type;
  a call of the source with an array of another rank (which fails at the unpacking of
  \<^verbatim>\<open>input.shape\<close>) has no counterpart here.

  Every exception numpy or Python raises on the modelled paths is a value of \<open>error\<close>,
  and every method returns its result (or the error) together with the layer object as the
  call left it, since attributes assigned before a raise stay assigned.
\<close>

subsection \<open>Errors and arrays\<close>

datatype error = ValueError | IndexError | ZeroDivisionError | AttributeError

type_synonym vec = "real list"

record tensor2 =
  shape2 :: "nat \<times> nat"
  data2 :: "real list list"

record tensor3 =
  shape3 :: "nat \<times> nat \<times> nat"
  data3 :: "real list list list"

record tensor4 =
  shape4 :: "nat \<times> nat \<times> nat \<times> nat"
  data4 :: "real list list list list"

text \<open>The elements agree with the shape.\<close>

definition wf2 :: "tensor2 \<Rightarrow> bool" where
  "wf2 t = (case shape2 t of (h, w) \<Rightarrow>
     length (data2 t) = h \<and> list_all (\<lambda>r. length r = w) (data2 t))"

definition wf3 :: "tensor3 \<Rightarrow> bool" where
  "wf3 t = (case shape3 t of (h, w, c) \<Rightarrow>
     length (data3 t) = h \<and>
     list_all (\<lambda>r. length r = w \<and> list_all (\<lambda>p. length p = c) r) (data3 t))"

definition wf4 :: "tensor4 \<Rightarrow> bool" where
  "wf4 t = (case shape4 t of (n, h, w, c) \<Rightarrow>
     length (data4 t) = n \<and>
     list_all (\<lambda>b. length b = h \<and>
       list_all (\<lambda>r. length r = w \<and> list_all (\<lambda>p. length p = c) r) b) (data4 t))"

definition size3 :: "tensor3 \<Rightarrow> nat" where
  "size3 t = (case shape3 t of (h, w, c) \<Rightarrow> h * w * c)"

text \<open>\<^verbatim>\<open>np.zeros((a, b, c))\<close>: a negative dimension is a \<^verbatim>\<open>ValueError\<close>.\<close>

definition np_zeros3 :: "int \<Rightarrow> int \<Rightarrow> int \<Rightarrow> error + tensor3" where
  "np_zeros3 a b c =
     (if a < 0 \<or> b < 0 \<or> c < 0 then Inl ValueError
      else Inr \<lparr>shape3 = (nat a, nat b, nat c),
                data3 = replicate (nat a) (replicate (nat b) (replicate (nat c) 0))\<rparr>)"

definition np_zeros4 :: "nat \<times> nat \<times> nat \<times> nat \<Rightarrow> tensor4" where
  "np_zeros4 s = (case s of (n, h, w, c) \<Rightarrow>
     \<lparr>shape4 = s, data4 = replicate n (replicate h (replicate w (replicate c 0)))\<rparr>)"

text \<open>
  The basic slice \<^verbatim>\<open>t[i0:i1, j0:j1]\<close> for bounds that are not negative: numpy clips both
  bounds to the axis, so the slice may be shorter than asked for, or empty.
\<close>

definition slice3 :: "tensor3 \<Rightarrow> nat \<Rightarrow> nat \<Rightarrow> nat \<Rightarrow> nat \<Rightarrow> tensor3" where
  "slice3 t i0 i1 j0 j1 = (case shape3 t of (h, w, c) \<Rightarrow>
     \<lparr>shape3 = (min i1 h - min i0 h, min j1 w - min j0 w, c),
      data3 = map (\<lambda>r. take (j1 - j0) (drop j0 r)) (take (i1 - i0) (drop i0 (data3 t)))\<rparr>)"

text \<open>
  Broadcasting of two axis lengths: equal, or one of them 1; the index into an axis of
  length 1 is always 0.
\<close>

definition bdim :: "nat \<Rightarrow> nat \<Rightarrow> error + nat" where
  "bdim a b = (if a = b then Inr a else if a = 1 then Inr b
               else if b = 1 then Inr a else Inl ValueError)"

definition bidx :: "nat \<Rightarrow> nat \<Rightarrow> nat" where
  "bidx d k = (if d = 1 then 0 else k)"

text \<open>
  \<^verbatim>\<open>region * filters\<close> for \<open>region\<close> of rank 3 and \<open>filters\<close> of rank 4: the shapes
  are aligned at the last axis, the region is repeated along the first axis of the filters.
\<close>

definition mul_3_4 :: "tensor3 \<Rightarrow> tensor4 \<Rightarrow> error + tensor4" where
  "mul_3_4 r f = (case shape3 r of (ra, rb, rc) \<Rightarrow> case shape4 f of (n, fa, fb, fc) \<Rightarrow>
     (case bdim ra fa of Inl e \<Rightarrow> Inl e | Inr a \<Rightarrow>
     (case bdim rb fb of Inl e \<Rightarrow> Inl e | Inr b \<Rightarrow>
     (case bdim rc fc of Inl e \<Rightarrow> Inl e | Inr c \<Rightarrow>
        Inr \<lparr>shape4 = (n, a, b, c),
             data4 = map (\<lambda>k. map (\<lambda>x. map (\<lambda>y. map (\<lambda>z.
                 data3 r ! bidx ra x ! bidx rb y ! bidx rc z
                 * data4 f ! k ! bidx fa x ! bidx fb y ! bidx fc z)
               [0..<c]) [0..<b]) [0..<a]) [0..<n]\<rparr>))))"

text \<open>\<^verbatim>\<open>np.sum(t, axis=(1, 2, 3))\<close>: one sum for each index of the first axis.\<close>

definition sum_axes123 :: "tensor4 \<Rightarrow> vec" where
  "sum_axes123 t = map (\<lambda>b. sum_list (concat (concat b))) (data4 t)"

text \<open>
  \<^verbatim>\<open>t[i, j] = v\<close> for a vector \<open>v\<close>: an index out of range is an \<^verbatim>\<open>IndexError\<close>, a
  vector of length 1 is broadcast along the last axis, any other length that differs from
  the last axis is a \<^verbatim>\<open>ValueError\<close>.
\<close>

definition set_ij :: "tensor3 \<Rightarrow> nat \<Rightarrow> nat \<Rightarrow> vec \<Rightarrow> error + tensor3" where
  "set_ij t i j v = (case shape3 t of (h, w, c) \<Rightarrow>
     if \<not> (i < h \<and> j < w) then Inl IndexError
     else if length v = c then Inr (t\<lparr>data3 := (data3 t)[i := (data3 t ! i)[j := v]]\<rparr>)
     else if length v = 1
       then Inr (t\<lparr>data3 := (data3 t)[i := (data3 t ! i)[j := replicate c (hd v)]]\<rparr>)
     else Inl ValueError)"

text \<open>A \<^verbatim>\<open>for\<close> loop over a list whose body may raise: the first error ends the loop.\<close>

fun for_loop :: "('a \<Rightarrow> 's \<Rightarrow> error + 's) \<Rightarrow> 'a list \<Rightarrow> 's \<Rightarrow> error + 's" where
  "for_loop body [] s = Inr s"
| "for_loop body (x # xs) s =
     (case body x s of Inl e \<Rightarrow> Inl e | Inr s' \<Rightarrow> for_loop body xs s')"

subsection \<open>The convolution layer\<close>

text \<open>
  \<^verbatim>\<open>IMG_CHANNELS = 3\<close> is a constant of the notebook; the constructor draws the filter
  bank at random with the shape \<^verbatim>\<open>(num_filters, filter_size, filter_size, IMG_CHANNELS)\<close>
  and divides it by 9. The random draw is the parameter \<open>rnd\<close>. \<^verbatim>\<open>randn\<close> rejects a
  negative dimension, so both numbers of a constructed layer are naturals. The attribute
  \<^verbatim>\<open>last_input\<close> does not exist before the first \<^verbatim>\<open>forward\<close>.
\<close>

definition IMG_CHANNELS :: nat where
  "IMG_CHANNELS = 3"

record Conv2D =
  num_filters :: nat
  filter_size :: nat
  filters :: tensor4
  conv_last_input :: "tensor3 option"

definition Conv2D_init :: "nat \<Rightarrow> nat \<Rightarrow> (nat \<Rightarrow> nat \<Rightarrow> nat \<Rightarrow> nat \<Rightarrow> real) \<Rightarrow> Conv2D" where
  "Conv2D_init n fs rnd =
     \<lparr>num_filters = n, filter_size = fs,
      filters = \<lparr>shape4 = (n, fs, fs, IMG_CHANNELS),
                 data4 = map (\<lambda>k. map (\<lambda>x. map (\<lambda>y. map (\<lambda>z. rnd k x y z / 9)
                   [0..<IMG_CHANNELS]) [0..<fs]) [0..<fs]) [0..<n]\<rparr>,
      conv_last_input = None\<rparr>"

text \<open>
  The generator \<^verbatim>\<open>Conv2D.iterate_regions\<close> as the list of what it yields, rows first.
  \<^verbatim>\<open>range\<close> of a negative number is empty.
\<close>

definition conv_iterate_regions :: "Conv2D \<Rightarrow> tensor3 \<Rightarrow> (tensor3 \<times> nat \<times> nat) list" where
  "conv_iterate_regions L img = (case shape3 img of (h, w, _) \<Rightarrow>
     let new_h = int h - int (filter_size L) + 1;
         new_w = int w - int (filter_size L) + 1
     in map (\<lambda>(i, j). (slice3 img i (i + filter_size L) j (j + filter_size L), i, j))
          (List.product [0..<nat new_h] [0..<nat new_w]))"

definition conv_forward_body :: "Conv2D \<Rightarrow> tensor3 \<times> nat \<times> nat \<Rightarrow> tensor3 \<Rightarrow> error + tensor3" where
  "conv_forward_body L x output = (case x of (region, i, j) \<Rightarrow>
     (case mul_3_4 region (filters L) of Inl e \<Rightarrow> Inl e
      | Inr p \<Rightarrow> set_ij output i j (sum_axes123 p)))"

definition conv_forward :: "Conv2D \<Rightarrow> tensor3 \<Rightarrow> (error + tensor3) \<times> Conv2D" where
  "conv_forward L input = (let L' = L\<lparr>conv_last_input := Some input\<rparr> in
     case shape3 input of (h, w, _) \<Rightarrow>
       (case np_zeros3 (int h - int (filter_size L) + 1) (int w - int (filter_size L) + 1)
               (int (num_filters L)) of
          Inl e \<Rightarrow> (Inl e, L')
        | Inr output \<Rightarrow> (for_loop (conv_forward_body L) (conv_iterate_regions L input) output, L')))"

text \<open>What the constructor establishes and \<^verbatim>\<open>backward\<close> keeps, for \<open>c\<close> filter channels.\<close>

definition conv_inv :: "nat \<Rightarrow> Conv2D \<Rightarrow> bool" where
  "conv_inv c L = (shape4 (filters L) = (num_filters L, filter_size L, filter_size L, c)
     \<and> wf4 (filters L))"


text \<open>
  \<^verbatim>\<open>t[i, j, k]\<close> read and written, and \<^verbatim>\<open>t[f] += s * region\<close> on an array of rank 4:
  in place, so the region must broadcast to the block \<open>t[f]\<close>, whose shape stays.
\<close>

definition get3 :: "tensor3 \<Rightarrow> nat \<Rightarrow> nat \<Rightarrow> nat \<Rightarrow> error + real" where
  "get3 t i j k = (case shape3 t of (h, w, c) \<Rightarrow>
     if i < h \<and> j < w \<and> k < c then Inr (data3 t ! i ! j ! k) else Inl IndexError)"

definition set3 :: "tensor3 \<Rightarrow> nat \<Rightarrow> nat \<Rightarrow> nat \<Rightarrow> real \<Rightarrow> error + tensor3" where
  "set3 t i j k v = (case shape3 t of (h, w, c) \<Rightarrow>
     if i < h \<and> j < w \<and> k < c
     then Inr (t\<lparr>data3 := (data3 t)[i := (data3 t ! i)[j := (data3 t ! i ! j)[k := v]]]\<rparr>)
     else Inl IndexError)"

definition iadd_block :: "tensor4 \<Rightarrow> nat \<Rightarrow> real \<Rightarrow> tensor3 \<Rightarrow> error + tensor4" where
  "iadd_block t f s r = (case shape4 t of (n, a, b, c) \<Rightarrow> case shape3 r of (ra, rb, rc) \<Rightarrow>
     if \<not> f < n then Inl IndexError
     else if (ra = a \<or> ra = 1) \<and> (rb = b \<or> rb = 1) \<and> (rc = c \<or> rc = 1)
     then Inr (t\<lparr>data4 := (data4 t)[f := map (\<lambda>x. map (\<lambda>y. map (\<lambda>z.
                 data4 t ! f ! x ! y ! z + s * data3 r ! bidx ra x ! bidx rb y ! bidx rc z)
               [0..<c]) [0..<b]) [0..<a]]\<rparr>)
     else Inl ValueError)"

text \<open>
  \<^verbatim>\<open>learn_rate * g\<close> and \<^verbatim>\<open>filters -= \<dots>\<close>: the gradient was made by \<^verbatim>\<open>np.zeros\<close> with
  the shape of the filters and only updated in place, so both shapes are the same.
\<close>

definition scale4 :: "real \<Rightarrow> tensor4 \<Rightarrow> tensor4" where
  "scale4 s t = t\<lparr>data4 := map (map (map (map (\<lambda>v. s * v)))) (data4 t)\<rparr>"

definition isub4 :: "tensor4 \<Rightarrow> tensor4 \<Rightarrow> tensor4" where
  "isub4 a b = a\<lparr>data4 := map2 (map2 (map2 (map2 (\<lambda>u v. u - v)))) (data4 a) (data4 b)\<rparr>"

definition conv_backward_body ::
    "Conv2D \<Rightarrow> tensor3 \<Rightarrow> tensor3 \<times> nat \<times> nat \<Rightarrow> tensor4 \<Rightarrow> error + tensor4" where
  "conv_backward_body L d_L_d_out x d_L_d_filters = (case x of (region, i, j) \<Rightarrow>
     for_loop (\<lambda>f g. (case get3 d_L_d_out i j f of Inl e \<Rightarrow> Inl e
                       | Inr s \<Rightarrow> iadd_block g f s region))
       [0..<num_filters L] d_L_d_filters)"

text \<open>The method returns \<^verbatim>\<open>None\<close>: no gradient for the layer's input.\<close>

definition conv_backward ::
    "Conv2D \<Rightarrow> tensor3 \<Rightarrow> real \<Rightarrow> (error + tensor3 option) \<times> Conv2D" where
  "conv_backward L d_L_d_out learn_rate =
     (case conv_last_input L of None \<Rightarrow> (Inl AttributeError, L)
      | Some inp \<Rightarrow>
         (case for_loop (conv_backward_body L d_L_d_out) (conv_iterate_regions L inp)
                 (np_zeros4 (shape4 (filters L))) of
            Inl e \<Rightarrow> (Inl e, L)
          | Inr d_L_d_filters \<Rightarrow>
              (Inr None, L\<lparr>filters := isub4 (filters L) (scale4 learn_rate d_L_d_filters)\<rparr>)))"

subsection \<open>The pooling layer\<close>

text \<open>
  The pool size is a natural number; 0 makes \<^verbatim>\<open>h // self.pool_size\<close> raise.
  \<^verbatim>\<open>np.amax(region, axis=(0, 1))\<close> raises on an axis of length 0, which has no maximum.
\<close>

record MaxPooling2D =
  pool_size :: nat
  pool_last_input :: "tensor3 option"

definition MaxPooling2D_init :: "nat \<Rightarrow> MaxPooling2D" where
  "MaxPooling2D_init p = \<lparr>pool_size = p, pool_last_input = None\<rparr>"

definition pool_iterate_regions ::
    "MaxPooling2D \<Rightarrow> tensor3 \<Rightarrow> error + (tensor3 \<times> nat \<times> nat) list" where
  "pool_iterate_regions M img = (case shape3 img of (h, w, _) \<Rightarrow>
     if pool_size M = 0 then Inl ZeroDivisionError
     else let new_h = h div pool_size M; new_w = w div pool_size M
       in Inr (map (\<lambda>(i, j). (slice3 img (i * pool_size M) (i * pool_size M + pool_size M)
                                  (j * pool_size M) (j * pool_size M + pool_size M), i, j))
            (List.product [0..<new_h] [0..<new_w])))"

fun list_max :: "real list \<Rightarrow> real" where
  "list_max [] = 0"
| "list_max (x # xs) = fold max xs x"

definition amax01 :: "tensor3 \<Rightarrow> error + vec" where
  "amax01 r = (case shape3 r of (rh, rw, c) \<Rightarrow>
     if rh = 0 \<or> rw = 0 then Inl ValueError
     else Inr (map (\<lambda>k. list_max (map (\<lambda>(x, y). data3 r ! x ! y ! k)
                                     (List.product [0..<rh] [0..<rw]))) [0..<c]))"

definition pool_forward_body :: "tensor3 \<times> nat \<times> nat \<Rightarrow> tensor3 \<Rightarrow> error + tensor3" where
  "pool_forward_body x output = (case x of (region, i, j) \<Rightarrow>
     (case amax01 region of Inl e \<Rightarrow> Inl e | Inr v \<Rightarrow> set_ij output i j v))"

definition pool_forward :: "MaxPooling2D \<Rightarrow> tensor3 \<Rightarrow> (error + tensor3) \<times> MaxPooling2D" where
  "pool_forward M input = (let M' = M\<lparr>pool_last_input := Some input\<rparr> in
     case shape3 input of (h, w, nf) \<Rightarrow>
       if pool_size M = 0 then (Inl ZeroDivisionError, M')
       else (case np_zeros3 (int (h div pool_size M)) (int (w div pool_size M))
                    (int nf) of
               Inl e \<Rightarrow> (Inl e, M')
             | Inr output \<Rightarrow>
                 (case pool_iterate_regions M input of Inl e \<Rightarrow> (Inl e, M')
                  | Inr regs \<Rightarrow> (for_loop pool_forward_body regs output, M'))))"

text \<open>
  The three inner loops of \<^verbatim>\<open>backward\<close> run over the indices of the region in
  lexicographic order; the gradient \<^verbatim>\<open>d_L_d_out[i, j, f2]\<close> is read only where the
  comparison holds.
\<close>

definition pool_backward_cell ::
    "MaxPooling2D \<Rightarrow> tensor3 \<Rightarrow> tensor3 \<Rightarrow> vec \<Rightarrow> nat \<Rightarrow> nat \<Rightarrow> nat \<times> nat \<times> nat
       \<Rightarrow> tensor3 \<Rightarrow> error + tensor3" where
  "pool_backward_cell M d_L_d_out region amax i j x d_L_d_input = (case x of (i2, j2, f2) \<Rightarrow>
     if data3 region ! i2 ! j2 ! f2 = amax ! f2
     then (case get3 d_L_d_out i j f2 of Inl e \<Rightarrow> Inl e
           | Inr v \<Rightarrow> set3 d_L_d_input (i * pool_size M + i2) (j * pool_size M + j2) f2 v)
     else Inr d_L_d_input)"

definition pool_backward_body ::
    "MaxPooling2D \<Rightarrow> tensor3 \<Rightarrow> tensor3 \<times> nat \<times> nat \<Rightarrow> tensor3 \<Rightarrow> error + tensor3" where
  "pool_backward_body M d_L_d_out x d_L_d_input = (case x of (region, i, j) \<Rightarrow>
     (case shape3 region of (h, w, f) \<Rightarrow>
       (case amax01 region of Inl e \<Rightarrow> Inl e
        | Inr amax \<Rightarrow>
            for_loop (pool_backward_cell M d_L_d_out region amax i j)
              (List.product [0..<h] (List.product [0..<w] [0..<f])) d_L_d_input)))"

definition pool_backward :: "MaxPooling2D \<Rightarrow> tensor3 \<Rightarrow> (error + tensor3) \<times> MaxPooling2D" where
  "pool_backward M d_L_d_out =
     (case pool_last_input M of None \<Rightarrow> (Inl AttributeError, M)
      | Some inp \<Rightarrow> (case shape3 inp of (h, w, c) \<Rightarrow>
         (case np_zeros3 (int h) (int w) (int c) of Inl e \<Rightarrow> (Inl e, M)
          | Inr d_L_d_input \<Rightarrow>
             (case pool_iterate_regions M inp of Inl e \<Rightarrow> (Inl e, M)
              | Inr regs \<Rightarrow> (for_loop (pool_backward_body M d_L_d_out) regs d_L_d_input, M)))))"


subsection \<open>The dense layer\<close>

text \<open>
  \<^verbatim>\<open>weights\<close> has the shape \<^verbatim>\<open>(input_len, nodes)\<close>, \<^verbatim>\<open>biases\<close> the length
  \<^verbatim>\<open>nodes\<close>; the constructor divides the random draw \<open>rnd\<close> by \<^verbatim>\<open>input_len\<close>.
  The three \<^verbatim>\<open>last_\<close> attributes do not exist before the first \<^verbatim>\<open>forward\<close>.
\<close>

record Dense =
  weights :: tensor2
  biases :: vec
  last_input_shape :: "(nat \<times> nat \<times> nat) option"
  dense_last_input :: "vec option"
  last_totals :: "vec option"

definition Dense_init :: "nat \<Rightarrow> nat \<Rightarrow> (nat \<Rightarrow> nat \<Rightarrow> real) \<Rightarrow> Dense" where
  "Dense_init input_len nodes rnd =
     \<lparr>weights = \<lparr>shape2 = (input_len, nodes),
                  data2 = map (\<lambda>l. map (\<lambda>k. rnd l k / real input_len) [0..<nodes])
                            [0..<input_len]\<rparr>,
      biases = replicate nodes 0,
      last_input_shape = None, dense_last_input = None, last_totals = None\<rparr>"

definition dense_inv :: "Dense \<Rightarrow> bool" where
  "dense_inv D = (wf2 (weights D) \<and> length (biases D) = snd (shape2 (weights D)))"

text \<open>\<^verbatim>\<open>input.flatten()\<close>: the elements in row-major order.\<close>

definition flatten3 :: "tensor3 \<Rightarrow> vec" where
  "flatten3 t = concat (concat (data3 t))"

text \<open>
  \<^verbatim>\<open>v.reshape(shape)\<close> to rank 3: the number of elements must stay.
  \<open>chunks n m xs\<close> cuts \<open>n\<close> pieces of length \<open>m\<close> off \<open>xs\<close>.
\<close>

fun chunks :: "nat \<Rightarrow> nat \<Rightarrow> 'a list \<Rightarrow> 'a list list" where
  "chunks 0 m xs = []"
| "chunks (Suc n) m xs = take m xs # chunks n m (drop m xs)"

definition reshape3 :: "vec \<Rightarrow> nat \<times> nat \<times> nat \<Rightarrow> error + tensor3" where
  "reshape3 v s = (case s of (h, w, c) \<Rightarrow>
     if length v \<noteq> h * w * c then Inl ValueError
     else Inr \<lparr>shape3 = s, data3 = map (chunks w c) (chunks h (w * c) v)\<rparr>)"

text \<open>
  \<^verbatim>\<open>np.dot\<close> of a vector and a matrix, of a matrix and a vector, and of a column and a row
  (the outer product: the axis summed over has length 1, so every entry is one product
  and nothing can fail); the sum of two vectors with broadcasting.
\<close>

definition dot_vm :: "vec \<Rightarrow> tensor2 \<Rightarrow> error + vec" where
  "dot_vm x m = (case shape2 m of (l, c) \<Rightarrow>
     if length x \<noteq> l then Inl ValueError
     else Inr (map (\<lambda>k. sum_list (map (\<lambda>i. x ! i * data2 m ! i ! k) [0..<l])) [0..<c]))"

definition dot_mv :: "tensor2 \<Rightarrow> vec \<Rightarrow> error + vec" where
  "dot_mv m y = (case shape2 m of (l, c) \<Rightarrow>
     if length y \<noteq> c then Inl ValueError
     else Inr (map (\<lambda>i. sum_list (map (\<lambda>k. data2 m ! i ! k * y ! k) [0..<c])) [0..<l]))"

definition outer :: "vec \<Rightarrow> vec \<Rightarrow> tensor2" where
  "outer x y = \<lparr>shape2 = (length x, length y),
                 data2 = map (\<lambda>u. map (\<lambda>v. u * v) y) x\<rparr>"

definition add_vec :: "vec \<Rightarrow> vec \<Rightarrow> error + vec" where
  "add_vec a b = (case bdim (length a) (length b) of Inl e \<Rightarrow> Inl e
     | Inr n \<Rightarrow> Inr (map (\<lambda>k. a ! bidx (length a) k + b ! bidx (length b) k) [0..<n]))"

definition dense_forward :: "Dense \<Rightarrow> tensor3 \<Rightarrow> (error + vec) \<times> Dense" where
  "dense_forward D input =
     (let D1 = D\<lparr>last_input_shape := Some (shape3 input)\<rparr>;
          x = flatten3 input;
          D2 = D1\<lparr>dense_last_input := Some x\<rparr>
      in (case dot_vm x (weights D) of Inl e \<Rightarrow> (Inl e, D2)
          | Inr t \<Rightarrow> (case add_vec t (biases D) of Inl e \<Rightarrow> (Inl e, D2)
              | Inr totals \<Rightarrow> (Inr totals, D2\<lparr>last_totals := Some totals\<rparr>))))"

text \<open>
  The in-place updates \<^verbatim>\<open>weights -= m\<close> and \<^verbatim>\<open>biases -= v\<close>: the right-hand side must
  broadcast to the left-hand side, whose shape stays.
\<close>

definition scale2 :: "real \<Rightarrow> tensor2 \<Rightarrow> tensor2" where
  "scale2 s t = t\<lparr>data2 := map (map (\<lambda>v. s * v)) (data2 t)\<rparr>"

definition isub2 :: "tensor2 \<Rightarrow> tensor2 \<Rightarrow> error + tensor2" where
  "isub2 a b = (case shape2 a of (l, c) \<Rightarrow> case shape2 b of (bl, bc) \<Rightarrow>
     if (bl = l \<or> bl = 1) \<and> (bc = c \<or> bc = 1)
     then Inr (a\<lparr>data2 := map (\<lambda>i. map (\<lambda>k. data2 a ! i ! k - data2 b ! bidx bl i ! bidx bc k)
                                 [0..<c]) [0..<l]\<rparr>)
     else Inl ValueError)"

definition isub1 :: "vec \<Rightarrow> vec \<Rightarrow> error + vec" where
  "isub1 a b =
     (if length b = length a \<or> length b = 1
      then Inr (map (\<lambda>k. a ! k - b ! bidx (length b) k) [0..<length a])
      else Inl ValueError)"

definition dense_backward :: "Dense \<Rightarrow> vec \<Rightarrow> real \<Rightarrow> (error + tensor3) \<times> Dense" where
  "dense_backward D d_L_d_out learn_rate =
     (let d_L_d_t = d_L_d_out in
      case dense_last_input D of None \<Rightarrow> (Inl AttributeError, D)
      | Some d_t_d_w \<Rightarrow>
        (let d_t_d_b = 1;
             d_t_d_inputs = weights D;
             d_L_d_w = outer d_t_d_w d_L_d_t;
             d_L_d_b = map (\<lambda>v. v * d_t_d_b) d_L_d_t
         in (case dot_mv d_t_d_inputs d_L_d_t of Inl e \<Rightarrow> (Inl e, D)
             | Inr d_L_d_inputs \<Rightarrow>
               (case isub2 (weights D) (scale2 learn_rate d_L_d_w) of Inl e \<Rightarrow> (Inl e, D)
                | Inr w' \<Rightarrow>
                  (let D1 = D\<lparr>weights := w'\<rparr> in
                   case isub1 (biases D) (map (\<lambda>v. learn_rate * v) d_L_d_b) of
                     Inl e \<Rightarrow> (Inl e, D1)
                   | Inr b' \<Rightarrow>
                     (let D2 = D1\<lparr>biases := b'\<rparr> in
                      case last_input_shape D of None \<Rightarrow> (Inl AttributeError, D2)
                      | Some s \<Rightarrow> (reshape3 d_L_d_inputs s, D2)))))))"

subsection \<open>Helpers and drivers\<close>

text \<open>
  \<^verbatim>\<open>np.max\<close> of an empty vector raises. \<^verbatim>\<open>cross_entropy_loss\<close> and \<^verbatim>\<open>train\<close> are the
  expressions of the source, \<^verbatim>\<open>-np.log(output[int(y)])\<close> and \<^verbatim>\<open>-1 / out[int(label)]\<close>, and
  check nothing but the index. In the source a probability can underflow to \<open>0.0\<close>; the
  same expressions then give \<open>inf\<close> and \<open>-inf\<close> (numpy warns and goes on), and the three
  backward calls run with them. Over the reals no entry of a softmax is 0, and the reals
  have no infinity: what the definitions say of a probability 0 is the shape of the
  computation, not the value.
\<close>

definition softmax :: "vec \<Rightarrow> error + vec" where
  "softmax x =
     (if x = [] then Inl ValueError
      else let exp_x = map (\<lambda>v. exp (v - list_max x)) x
           in Inr (map (\<lambda>e. e / sum_list exp_x) exp_x))"

text \<open>Python's \<^verbatim>\<open>v[i]\<close> for an integer \<open>i\<close>: a negative index counts from the end.\<close>

definition py_index :: "nat \<Rightarrow> int \<Rightarrow> error + nat" where
  "py_index n i =
     (if 0 \<le> i \<and> i < int n then Inr (nat i)
      else if - int n \<le> i \<and> i < 0 then Inr (nat (i + int n))
      else Inl IndexError)"

definition cross_entropy_loss :: "vec \<Rightarrow> int \<Rightarrow> error + real" where
  "cross_entropy_loss output y =
     (case py_index (length output) y of Inl e \<Rightarrow> Inl e
      | Inr k \<Rightarrow> Inr (- ln (output ! k)))"

text \<open>\<^verbatim>\<open>np.argmax\<close>: the first index of the greatest entry (of a vector that is not empty).\<close>

definition argmax :: "vec \<Rightarrow> nat" where
  "argmax v = (case find (\<lambda>k. v ! k = list_max v) [0..<length v] of Some k \<Rightarrow> k | None \<Rightarrow> 0)"

text \<open>The three layer objects are globals of the notebook.\<close>

record Network =
  conv :: Conv2D
  pool :: MaxPooling2D
  dense :: Dense

definition normalize :: "tensor3 \<Rightarrow> tensor3" where
  "normalize t = t\<lparr>data3 := map (map (map (\<lambda>v. v / 255 - 0.5))) (data3 t)\<rparr>"

definition forward :: "Network \<Rightarrow> tensor3 \<Rightarrow> int \<Rightarrow> (error + vec \<times> real \<times> nat) \<times> Network" where
  "forward net img label =
     (case conv_forward (conv net) (normalize img) of
        (Inl e, c') \<Rightarrow> (Inl e, net\<lparr>conv := c'\<rparr>)
      | (Inr out1, c') \<Rightarrow>
     (case pool_forward (pool net) out1 of
        (Inl e, p') \<Rightarrow> (Inl e, net\<lparr>conv := c', pool := p'\<rparr>)
      | (Inr out2, p') \<Rightarrow>
     (case dense_forward (dense net) out2 of
        (Inl e, d') \<Rightarrow> (Inl e, net\<lparr>conv := c', pool := p', dense := d'\<rparr>)
      | (Inr totals, d') \<Rightarrow>
     (let net' = net\<lparr>conv := c', pool := p', dense := d'\<rparr> in
      case softmax totals of Inl e \<Rightarrow> (Inl e, net')
      | Inr out \<Rightarrow>
        (case cross_entropy_loss out label of Inl e \<Rightarrow> (Inl e, net')
         | Inr loss \<Rightarrow>
            (let acc = (if int (argmax out) = label then 1 else 0)
             in (Inr (out, loss, acc), net')))))))"

text \<open>
  \<^verbatim>\<open>train\<close>: the gradient starts as \<^verbatim>\<open>np.zeros(2)\<close>, then
  \<^verbatim>\<open>grad[int(label)] = -1 / out[int(label)]\<close>, the right-hand side first.
\<close>

definition train :: "Network \<Rightarrow> tensor3 \<Rightarrow> int \<Rightarrow> real \<Rightarrow> (error + real \<times> nat) \<times> Network" where
  "train net im label lr =
     (case forward net im label of
        (Inl e, net1) \<Rightarrow> (Inl e, net1)
      | (Inr (out, loss, acc), net1) \<Rightarrow>
     (let grad0 = replicate 2 (0::real) in
      case py_index (length out) label of Inl e \<Rightarrow> (Inl e, net1)
      | Inr ko \<Rightarrow>
        (case py_index (length grad0) label of Inl e \<Rightarrow> (Inl e, net1)
          | Inr kg \<Rightarrow>
     (let grad = grad0[kg := - 1 / out ! ko] in
      case dense_backward (dense net1) grad lr of
        (Inl e, d') \<Rightarrow> (Inl e, net1\<lparr>dense := d'\<rparr>)
      | (Inr grad1, d') \<Rightarrow>
     (case pool_backward (pool net1) grad1 of
        (Inl e, p') \<Rightarrow> (Inl e, net1\<lparr>dense := d', pool := p'\<rparr>)
      | (Inr grad2, p') \<Rightarrow>
     (case conv_backward (conv net1) grad2 lr of
        (Inl e, c') \<Rightarrow> (Inl e, net1\<lparr>dense := d', pool := p', conv := c'\<rparr>)
      | (Inr _, c') \<Rightarrow>
          (Inr (loss, acc), net1\<lparr>dense := d', pool := p', conv := c'\<rparr>)))))))"

subsection \<open>Reference values and examples\<close>

text \<open>
  The greatest element of the \<open>P \<times> P\<close> window \<open>(i, j)\<close> of channel \<open>k\<close>: what the
  pooling layer is to compute.
\<close>

definition window_max :: "tensor3 \<Rightarrow> nat \<Rightarrow> nat \<Rightarrow> nat \<Rightarrow> nat \<Rightarrow> real" where
  "window_max t P i j k =
     Max ((\<lambda>(a, b). data3 t ! (i * P + a) ! (j * P + b) ! k) ` ({..<P} \<times> {..<P}))"

text \<open>A \<open>2 \<times> 2\<close> image of three channels and a layer of one \<open>2 \<times> 2\<close> filter of ones.\<close>

definition ex_img :: tensor3 where
  "ex_img = \<lparr>shape3 = (2, 2, 3),
             data3 = [[[1, 0, 2], [0, 1, 0]], [[3, 0, 0], [0, 0, 1]]]\<rparr>"

definition ex_conv :: Conv2D where
  "ex_conv = Conv2D_init 1 2 (\<lambda>k x y z. 9)"

text \<open>A \<open>5 \<times> 5\<close> input of one channel for a pool of size 2.\<close>

definition ex_pool_in :: tensor3 where
  "ex_pool_in = \<lparr>shape3 = (5, 5, 1),
     data3 = [[[1], [2], [0], [0], [9]],
              [[3], [7], [0], [5], [9]],
              [[4], [4], [1], [1], [9]],
              [[4], [2], [1], [1], [9]],
              [[8], [8], [8], [8], [9]]]\<rparr>"

definition ex_pool :: MaxPooling2D where
  "ex_pool = MaxPooling2D_init 2"

text \<open>Gradients for the two examples: one entry for the convolution, \<open>2 \<times> 2\<close> for the pool.\<close>

definition ex_conv_grad :: tensor3 where
  "ex_conv_grad = \<lparr>shape3 = (1, 1, 1), data3 = [[[2]]]\<rparr>"

definition ex_pool_grad :: tensor3 where
  "ex_pool_grad = \<lparr>shape3 = (2, 2, 1), data3 = [[[10], [20]], [[30], [40]]]\<rparr>"

text \<open>
  A dense layer of two inputs and two nodes with the weights \<open>[[1, 2], [3, 4]]\<close>, and an
  input of shape \<open>(1, 2, 1)\<close>.
\<close>

definition ex_dense :: Dense where
  "ex_dense = Dense_init 2 2 (\<lambda>l k. 2 * (2 * real l + real k + 1))"

definition ex_dense_in :: tensor3 where
  "ex_dense_in = \<lparr>shape3 = (1, 2, 1), data3 = [[[1], [2]]]\<rparr>"

text \<open>
  Layers with filters larger than the \<open>2 \<times> 2\<close> image, and images of one and of two
  channels for the layer \<open>ex_conv\<close>, whose filters have three.
\<close>

definition ex_conv3 :: Conv2D where
  "ex_conv3 = Conv2D_init 1 3 (\<lambda>k x y z. 9)"

definition ex_conv4 :: Conv2D where
  "ex_conv4 = Conv2D_init 1 4 (\<lambda>k x y z. 9)"

definition ex_gray :: tensor3 where
  "ex_gray = \<lparr>shape3 = (2, 2, 1), data3 = [[[1], [2]], [[3], [4]]]\<rparr>"

definition ex_two :: tensor3 where
  "ex_two = \<lparr>shape3 = (2, 2, 2), data3 = [[[1, 1], [2, 2]], [[3, 3], [4, 4]]]\<rparr>"

text \<open>
  A network for the \<open>2 \<times> 2\<close> image: the filter of ones, a pool of size 1 and a dense layer
  of one input and two nodes whose weights are zero, so that both classes get the
  probability one half.
\<close>

definition ex_net :: Network where
  "ex_net = \<lparr>conv = ex_conv, pool = MaxPooling2D_init 1, dense = Dense_init 1 2 (\<lambda>l k. 0)\<rparr>"

section \<open>Properties\<close>

subsection \<open>Arrays\<close>

lemma wf3_length:
  assumes "wf3 t" "shape3 t = (h, w, c)"
  shows "length (data3 t) = h"
    and "i < h \<Longrightarrow> length (data3 t ! i) = w"
    and "i < h \<Longrightarrow> j < w \<Longrightarrow> length (data3 t ! i ! j) = c"
  using assms by (auto simp: wf3_def list_all_length)

lemma wf3_intro:
  assumes "shape3 t = (h, w, c)" "length (data3 t) = h"
    and "\<And>i. i < h \<Longrightarrow> length (data3 t ! i) = w"
    and "\<And>i j. i < h \<Longrightarrow> j < w \<Longrightarrow> length (data3 t ! i ! j) = c"
  shows "wf3 t"
  using assms by (auto simp: wf3_def list_all_length)

lemma wf4_length:
  assumes "wf4 t" "shape4 t = (n, h, w, c)"
  shows "length (data4 t) = n"
    and "k < n \<Longrightarrow> length (data4 t ! k) = h"
    and "k < n \<Longrightarrow> i < h \<Longrightarrow> length (data4 t ! k ! i) = w"
    and "k < n \<Longrightarrow> i < h \<Longrightarrow> j < w \<Longrightarrow> length (data4 t ! k ! i ! j) = c"
  using assms by (auto simp: wf4_def list_all_length)

lemma slice3_shape:
  assumes "shape3 t = (h, w, c)" "i + F \<le> h" "j + F \<le> w"
  shows "shape3 (slice3 t i (i + F) j (j + F)) = (F, F, c)"
  using assms by (simp add: slice3_def min_def)

lemma slice3_nth:
  assumes "wf3 t" "shape3 t = (h, w, c)" "i + F \<le> h" "j + F \<le> w" "a < F" "b < F"
  shows "data3 (slice3 t i (i + F) j (j + F)) ! a ! b = data3 t ! (i + a) ! (j + b)"
  using assms wf3_length[OF assms(1,2)] by (simp add: slice3_def)

lemma sum_list_concat_real:
  "sum_list (concat xss) = sum_list (map sum_list (xss :: real list list))"
  by (induction xss) auto

lemma sum_list_tab3:
  "sum_list (concat (concat (map (\<lambda>x. map (\<lambda>y. map (\<lambda>z. g x y z) [0..<c]) [0..<b]) [0..<a])))
   = (\<Sum>x<a. \<Sum>y<b. \<Sum>z<c. (g x y z :: real))"
  by (simp add: sum_list_concat_real map_concat comp_def interv_sum_list_conv_sum_set_nat atLeast0LessThan)

lemma bidx_less: "k < d \<Longrightarrow> bidx d k = k"
  by (auto simp: bidx_def)

subsection \<open>Convolution: forward\<close>

lemma mul_3_4_bc:
  assumes "shape3 r = (F, G, C)" "shape4 f = (N, F, G, Cf)" "C = Cf \<or> C = 1 \<or> Cf = 1"
  shows "\<exists>p. mul_3_4 r f = Inr p \<and>
     sum_axes123 p = map (\<lambda>k. \<Sum>x<F. \<Sum>y<G. \<Sum>z<(if C = 1 then Cf else C).
        data3 r ! x ! y ! bidx C z * data4 f ! k ! x ! y ! bidx Cf z) [0..<N]"
  using assms
  by (auto simp add: mul_3_4_def bdim_def sum_axes123_def sum_list_tab3 comp_def bidx_less)

lemma mul_3_4_fail:
  assumes "shape3 r = (F, G, C)" "shape4 f = (N, F, G, Cf)" "\<not> (C = Cf \<or> C = 1 \<or> Cf = 1)"
  shows "mul_3_4 r f = Inl ValueError"
  using assms by (auto simp add: mul_3_4_def bdim_def)

lemma set_ij_ok:
  assumes "shape3 t = (h, w, c)" "wf3 t" "i < h" "j < w" "length v = c"
  shows "\<exists>t'. set_ij t i j v = Inr t' \<and> shape3 t' = (h, w, c) \<and> wf3 t' \<and>
     (\<forall>i'<h. \<forall>j'<w. data3 t' ! i' ! j' = (if i' = i \<and> j' = j then v else data3 t ! i' ! j'))"
proof -
  let ?t' = "t\<lparr>data3 := (data3 t)[i := (data3 t ! i)[j := v]]\<rparr>"
  note len = wf3_length[OF assms(2,1)]
  have 1: "set_ij t i j v = Inr ?t'" using assms by (simp add: set_ij_def)
  have 2: "shape3 ?t' = (h, w, c)" using assms by simp
  have 3: "\<forall>i'<h. \<forall>j'<w. data3 ?t' ! i' ! j' = (if i' = i \<and> j' = j then v else data3 t ! i' ! j')"
    using assms len by (auto simp: nth_list_update)
  have 4: "wf3 ?t'"
  proof (rule wf3_intro[OF 2])
    show "length (data3 ?t') = h" using len by simp
    show "\<And>i'. i' < h \<Longrightarrow> length (data3 ?t' ! i') = w"
      using len assms by (auto simp: nth_list_update)
    show "\<And>i' j'. i' < h \<Longrightarrow> j' < w \<Longrightarrow> length (data3 ?t' ! i' ! j') = c"
      using len assms by (auto simp: nth_list_update)
  qed
  from 1 2 3 4 show ?thesis by blast
qed

lemma for_loop_set_ij:
  assumes "shape3 out = (h, w, c)" "wf3 out"
    and "\<And>i j. (i, j) \<in> set qs \<Longrightarrow> i < h \<and> j < w \<and> length (g i j) = c"
    and "\<And>i j t. (i, j) \<in> set qs \<Longrightarrow> shape3 t = (h, w, c) \<Longrightarrow>
           body (R i j, i, j) t = set_ij t i j (g i j)"
  shows "\<exists>out'. for_loop body (map (\<lambda>(i, j). (R i j, i, j)) qs) out = Inr out' \<and>
     shape3 out' = (h, w, c) \<and> wf3 out' \<and>
     (\<forall>i<h. \<forall>j<w. data3 out' ! i ! j = (if (i, j) \<in> set qs then g i j else data3 out ! i ! j))"
  using assms
proof (induction qs arbitrary: out)
  case Nil
  then show ?case by simp
next
  case (Cons q qs)
  obtain i0 j0 where q: "q = (i0, j0)" by (cases q)
  have in0: "i0 < h" "j0 < w" "length (g i0 j0) = c"
    using Cons.prems(3)[of i0 j0] q by auto
  from set_ij_ok[OF Cons.prems(1,2) in0]
  obtain t1 where t1: "set_ij out i0 j0 (g i0 j0) = Inr t1" "shape3 t1 = (h, w, c)" "wf3 t1"
    "\<forall>i'<h. \<forall>j'<w. data3 t1 ! i' ! j' = (if i' = i0 \<and> j' = j0 then g i0 j0 else data3 out ! i' ! j')"
    by blast
  have step: "body (R i0 j0, i0, j0) out = Inr t1"
    using Cons.prems(4)[of i0 j0 out] Cons.prems(1) q t1(1) by simp
  have "\<exists>out'. for_loop body (map (\<lambda>(i, j). (R i j, i, j)) qs) t1 = Inr out' \<and>
     shape3 out' = (h, w, c) \<and> wf3 out' \<and>
     (\<forall>i<h. \<forall>j<w. data3 out' ! i ! j = (if (i, j) \<in> set qs then g i j else data3 t1 ! i ! j))"
    by (rule Cons.IH[OF t1(2,3)]) (use Cons.prems(3,4) in auto)
  then obtain out' where o: "for_loop body (map (\<lambda>(i, j). (R i j, i, j)) qs) t1 = Inr out'"
     "shape3 out' = (h, w, c)" "wf3 out'"
     "\<forall>i<h. \<forall>j<w. data3 out' ! i ! j = (if (i, j) \<in> set qs then g i j else data3 t1 ! i ! j)"
    by blast
  have "for_loop body (map (\<lambda>(i, j). (R i j, i, j)) (q # qs)) out = Inr out'"
    using step o(1) q by simp
  moreover have "\<forall>i<h. \<forall>j<w. data3 out' ! i ! j =
      (if (i, j) \<in> set (q # qs) then g i j else data3 out ! i ! j)"
    using o(4) t1(4) q by auto
  ultimately show ?case using o(2,3) by blast
qed

lemma np_zeros3_ok:
  "np_zeros3 (int a) (int b) (int c) = Inr t \<Longrightarrow> shape3 t = (a, b, c) \<and> wf3 t"
  by (auto simp: np_zeros3_def wf3_def list_all_length)

text \<open>
  The forward pass of the convolution, also where the channel axis is broadcast and where
  the image has no window at all.
\<close>

lemma conv_forward_general:
  assumes "conv_inv Cf L" "wf3 img" "shape3 img = (H, W, C)"
    and "filter_size L \<le> H + 1" "filter_size L \<le> W + 1"
    and "H < filter_size L \<or> W < filter_size L \<or> C = Cf \<or> C = 1 \<or> Cf = 1"
  shows "\<exists>out. fst (conv_forward L img) = Inr out \<and> wf3 out \<and>
     shape3 out = (H + 1 - filter_size L, W + 1 - filter_size L, num_filters L) \<and>
     (\<forall>i < H + 1 - filter_size L. \<forall>j < W + 1 - filter_size L. \<forall>f < num_filters L.
        data3 out ! i ! j ! f =
          (\<Sum>a<filter_size L. \<Sum>b<filter_size L. \<Sum>c<(if C = 1 then Cf else C).
             data3 img ! (i + a) ! (j + b) ! bidx C c * data4 (filters L) ! f ! a ! b ! bidx Cf c))"
proof -
  define F where "F = filter_size L"
  define N where "N = num_filters L"
  define nh where "nh = H + 1 - F"
  define nw where "nw = W + 1 - F"
  define g where "g = (\<lambda>i j. map (\<lambda>f. \<Sum>a<F. \<Sum>b<F. \<Sum>c<(if C = 1 then Cf else C).
             data3 img ! (i + a) ! (j + b) ! bidx C c * data4 (filters L) ! f ! a ! b ! bidx Cf c) [0..<N])"
  define R where "R = (\<lambda>i j. slice3 img i (i + F) j (j + F))"
  have FH: "F \<le> H + 1" "F \<le> W + 1" using assms by (auto simp: F_def)
  have sf: "shape4 (filters L) = (N, F, F, Cf)"
    using assms(1) by (simp add: conv_inv_def F_def N_def)
  have ih: "int H - int F + 1 = int nh" "int W - int F + 1 = int nw"
    using FH by (auto simp: nh_def nw_def)
  obtain out0 where z: "np_zeros3 (int nh) (int nw) (int N) = Inr out0"
    by (simp add: np_zeros3_def)
  have z0: "shape3 out0 = (nh, nw, N)" "wf3 out0" using np_zeros3_ok[OF z] by auto
  have regs: "conv_iterate_regions L img = map (\<lambda>(i, j). (R i j, i, j)) (List.product [0..<nh] [0..<nw])"
    using assms(3) ih by (simp add: conv_iterate_regions_def R_def F_def[symmetric])
  have body: "conv_forward_body L (R i j, i, j) t = set_ij t i j (g i j)"
    if "(i, j) \<in> set (List.product [0..<nh] [0..<nw])" for i j t
  proof -
    have b: "i + F \<le> H" "j + F \<le> W" using that FH by (auto simp: nh_def nw_def)
    then have bc: "C = Cf \<or> C = 1 \<or> Cf = 1" using assms(6) by (auto simp: F_def)
    have sr: "shape3 (R i j) = (F, F, C)"
      unfolding R_def by (rule slice3_shape[OF assms(3) b])
    from mul_3_4_bc[OF sr sf bc] obtain p where p: "mul_3_4 (R i j) (filters L) = Inr p"
      "sum_axes123 p = map (\<lambda>k. \<Sum>x<F. \<Sum>y<F. \<Sum>z<(if C = 1 then Cf else C).
          data3 (R i j) ! x ! y ! bidx C z * data4 (filters L) ! k ! x ! y ! bidx Cf z) [0..<N]"
      by blast
    have "sum_axes123 p = g i j"
      unfolding p(2) g_def R_def
      by (simp add: slice3_nth[OF assms(2,3) b])
    then show ?thesis using p(1) by (simp add: conv_forward_body_def)
  qed
  have "\<exists>out'. for_loop (conv_forward_body L)
        (map (\<lambda>(i, j). (R i j, i, j)) (List.product [0..<nh] [0..<nw])) out0 = Inr out' \<and>
     shape3 out' = (nh, nw, N) \<and> wf3 out' \<and>
     (\<forall>i<nh. \<forall>j<nw. data3 out' ! i ! j =
        (if (i, j) \<in> set (List.product [0..<nh] [0..<nw]) then g i j else data3 out0 ! i ! j))"
    by (rule for_loop_set_ij[OF z0]) (use body in \<open>auto simp: g_def\<close>)
  then obtain out where out: "for_loop (conv_forward_body L) (conv_iterate_regions L img) out0 = Inr out"
    "shape3 out = (nh, nw, N)" "wf3 out"
    "\<forall>i<nh. \<forall>j<nw. data3 out ! i ! j = g i j"
    unfolding regs by auto
  have "fst (conv_forward L img) = Inr out"
    using assms(3) z out(1) ih by (simp add: conv_forward_def Let_def F_def[symmetric] N_def[symmetric])
  moreover have "\<forall>i<nh. \<forall>j<nw. \<forall>f<N. data3 out ! i ! j ! f =
     (\<Sum>a<F. \<Sum>b<F. \<Sum>c<(if C = 1 then Cf else C).
        data3 img ! (i + a) ! (j + b) ! bidx C c * data4 (filters L) ! f ! a ! b ! bidx Cf c)"
    using out(4) by (simp add: g_def)
  ultimately show ?thesis
    using out(2,3) unfolding F_def N_def nh_def nw_def by blast
qed

lemma conv_forward_negative:
  assumes "shape3 img = (H, W, C)" "H + 1 < filter_size L \<or> W + 1 < filter_size L"
  shows "fst (conv_forward L img) = Inl ValueError"
  using assms by (auto simp: conv_forward_def Let_def np_zeros3_def)

lemma product_upt_Cons:
  "0 < a \<Longrightarrow> 0 < b \<Longrightarrow> \<exists>rest. List.product [0..<a] [0..<b] = (0, 0) # rest"
  by (cases a; cases b) (auto simp: upt_rec[of 0] simp del: upt_Suc)

lemma conv_forward_mismatch:
  assumes "conv_inv Cf L" "shape3 img = (H, W, C)"
    and "filter_size L \<le> H" "filter_size L \<le> W"
    and "\<not> (C = Cf \<or> C = 1 \<or> Cf = 1)"
  shows "fst (conv_forward L img) = Inl ValueError"
proof -
  define F where "F = filter_size L"
  define nh where "nh = H + 1 - F"
  define nw where "nw = W + 1 - F"
  have sf: "shape4 (filters L) = (num_filters L, F, F, Cf)"
    using assms(1) by (simp add: conv_inv_def F_def)
  have ih: "int H - int F + 1 = int nh" "int W - int F + 1 = int nw"
    using assms(3,4) by (auto simp: F_def nh_def nw_def)
  obtain rest where r: "List.product [0..<nh] [0..<nw] = (0, 0) # rest"
    using product_upt_Cons[of nh nw] assms(3,4) by (auto simp: F_def nh_def nw_def)
  have sr: "shape3 (slice3 img 0 (0 + F) 0 (0 + F)) = (F, F, C)"
    by (rule slice3_shape[OF assms(2)]) (use assms(3,4) in \<open>auto simp: F_def\<close>)
  have m: "mul_3_4 (slice3 img 0 F 0 F) (filters L) = Inl ValueError"
    using mul_3_4_fail[OF sr sf assms(5)] by simp
  have regs: "conv_iterate_regions L img =
      map (\<lambda>(i, j). (slice3 img i (i + F) j (j + F), i, j)) (List.product [0..<nh] [0..<nw])"
    using assms(2) ih by (simp add: conv_iterate_regions_def F_def[symmetric])
  obtain out0 where z: "np_zeros3 (int nh) (int nw) (int (num_filters L)) = Inr out0"
    by (simp add: np_zeros3_def)
  have "for_loop (conv_forward_body L) (conv_iterate_regions L img) out0 = Inl ValueError"
    unfolding regs r using m by (simp add: conv_forward_body_def)
  then show ?thesis
    using assms(2) ih z by (simp add: conv_forward_def Let_def F_def[symmetric])
qed

text \<open>
  Claim C1. For an image of shape \<open>(H, W, C)\<close>, a filter bank of \<open>N\<close> filters of size
  \<open>F \<times> F\<close> over the same \<open>C\<close> channels, and \<open>F \<le> min H W\<close>, \<^verbatim>\<open>Conv2D.forward\<close> returns an
  array of shape \<open>(H - F + 1, W - F + 1, N)\<close> whose entry \<open>(i, j, f)\<close> is the sum, over the
  \<open>F \<times> F \<times> C\<close> window of the image that starts at \<open>(i, j)\<close>, of the products of the
  window's entries with the weights of filter \<open>f\<close>: a valid cross-correlation of stride 1.
\<close>

theorem conv_forward_correct:
  assumes "conv_inv C L" "wf3 img" "shape3 img = (H, W, C)"
    and "filter_size L \<le> H" "filter_size L \<le> W"
  shows "\<exists>out. fst (conv_forward L img) = Inr out \<and> wf3 out \<and>
     shape3 out = (H - filter_size L + 1, W - filter_size L + 1, num_filters L) \<and>
     (\<forall>i < H - filter_size L + 1. \<forall>j < W - filter_size L + 1. \<forall>f < num_filters L.
        data3 out ! i ! j ! f =
          (\<Sum>a<filter_size L. \<Sum>b<filter_size L. \<Sum>c<C.
             data3 img ! (i + a) ! (j + b) ! c * data4 (filters L) ! f ! a ! b ! c))"
proof -
  have le: "filter_size L \<le> H + 1" "filter_size L \<le> W + 1" using assms(4,5) by auto
  have eq: "H + 1 - filter_size L = H - filter_size L + 1"
    "W + 1 - filter_size L = W - filter_size L + 1"
    using assms(4,5) by auto
  from conv_forward_general[OF assms(1,2,3) le] show ?thesis
    unfolding eq by (simp add: bidx_less)
qed

lemma ex_conv_filters:
  "data4 (filters ex_conv) = [[[[1, 1, 1], [1, 1, 1]], [[1, 1, 1], [1, 1, 1]]]]"
  by (simp add: ex_conv_def Conv2D_init_def IMG_CHANNELS_def upt_rec numeral_2_eq_2
      numeral_3_eq_3 del: upt_Suc)

lemma ex_conv_inv: "conv_inv 3 ex_conv"
  by (simp add: conv_inv_def ex_conv_def Conv2D_init_def IMG_CHANNELS_def wf4_def list_all_iff)

lemma ex_conv_sizes: "filter_size ex_conv = 2" "num_filters ex_conv = 1"
  by (simp_all add: ex_conv_def Conv2D_init_def)

lemma ex_img_wf: "wf3 ex_img" "shape3 ex_img = (2, 2, 3)"
  by (simp_all add: ex_img_def wf3_def)

theorem conv_forward_correct_witness:
  "conv_inv 3 ex_conv \<and> wf3 ex_img \<and> shape3 ex_img = (2, 2, 3) \<and> filter_size ex_conv \<le> 2 \<and>
   (\<exists>out. fst (conv_forward ex_conv ex_img) = Inr out \<and> shape3 out = (1, 1, 1) \<and>
      data3 out ! 0 ! 0 ! 0 = 8)"
proof -
  have h4: "filter_size ex_conv \<le> 2" by (simp add: ex_conv_sizes)
  from conv_forward_correct[OF ex_conv_inv ex_img_wf h4 h4]
  obtain out where o: "fst (conv_forward ex_conv ex_img) = Inr out"
    "shape3 out = (2 - filter_size ex_conv + 1, 2 - filter_size ex_conv + 1, num_filters ex_conv)"
    "\<forall>i < 2 - filter_size ex_conv + 1. \<forall>j < 2 - filter_size ex_conv + 1.
       \<forall>f < num_filters ex_conv.
        data3 out ! i ! j ! f =
          (\<Sum>a<filter_size ex_conv. \<Sum>b<filter_size ex_conv. \<Sum>c<3.
             data3 ex_img ! (i + a) ! (j + b) ! c * data4 (filters ex_conv) ! f ! a ! b ! c)"
    by blast
  have "data3 out ! 0 ! 0 ! 0 = (\<Sum>a<2. \<Sum>b<2. \<Sum>c<3.
             data3 ex_img ! (0 + a) ! (0 + b) ! c * data4 (filters ex_conv) ! 0 ! a ! b ! c)"
    using o(3) unfolding ex_conv_sizes by simp
  also have "\<dots> = 8"
    by (simp add: ex_conv_filters ex_img_def numeral_2_eq_2 numeral_3_eq_3)
  finally have "data3 out ! 0 ! 0 ! 0 = 8" .
  moreover have "shape3 out = (1, 1, 1)" using o(2) by (simp add: ex_conv_sizes)
  ultimately show ?thesis using ex_conv_inv ex_img_wf h4 o(1) by blast
qed

subsection \<open>Pooling: forward\<close>

lemma list_max_Max: "list_max xs = Max (set xs)" if "xs \<noteq> []"
proof (cases xs)
  case Nil
  then show ?thesis using that by simp
next
  case (Cons a l)
  then show ?thesis using Max.set_eq_fold[of a l] by simp
qed

lemma window_le:
  assumes "i < h div P"
  shows "i * P + P \<le> (h::nat)"
proof -
  have "Suc i \<le> h div P" using assms by simp
  then have "Suc i * P \<le> (h div P) * P" by (rule mult_le_mono1)
  also have "\<dots> \<le> h" by simp
  finally show ?thesis by (simp add: add.commute)
qed

lemma amax01_ok:
  assumes "shape3 r = (rh, rw, c)" "0 < rh" "0 < rw"
  shows "amax01 r = Inr (map (\<lambda>k. Max ((\<lambda>(x, y). data3 r ! x ! y ! k) ` ({..<rh} \<times> {..<rw}))) [0..<c])"
proof -
  have ne: "List.product [0..<rh] [0..<rw] \<noteq> []"
    using assms(2,3) product_upt_Cons[of rh rw] by auto
  have "list_max (map (\<lambda>(x, y). data3 r ! x ! y ! k) (List.product [0..<rh] [0..<rw]))
      = Max ((\<lambda>(x, y). data3 r ! x ! y ! k) ` ({..<rh} \<times> {..<rw}))" for k
    using ne by (simp add: list_max_Max atLeast0LessThan)
  then show ?thesis using assms by (simp add: amax01_def)
qed

lemma pool_region:
  assumes "wf3 inp" "shape3 inp = (H, W, C)" "0 < P" "i < H div P" "j < W div P"
  shows "amax01 (slice3 inp (i * P) (i * P + P) (j * P) (j * P + P))
     = Inr (map (window_max inp P i j) [0..<C])"
proof -
  have b: "i * P + P \<le> H" "j * P + P \<le> W" using assms(4,5) by (auto intro: window_le)
  have sr: "shape3 (slice3 inp (i * P) (i * P + P) (j * P) (j * P + P)) = (P, P, C)"
    by (rule slice3_shape[OF assms(2) b])
  have "(\<lambda>(x, y). data3 (slice3 inp (i * P) (i * P + P) (j * P) (j * P + P)) ! x ! y ! k) ` ({..<P} \<times> {..<P})
      = (\<lambda>(a, b). data3 inp ! (i * P + a) ! (j * P + b) ! k) ` ({..<P} \<times> {..<P})" for k
    by (rule image_cong) (auto simp: slice3_nth[OF assms(1,2) b])
  then show ?thesis
    unfolding amax01_ok[OF sr assms(3,3)] window_max_def by simp
qed

lemma pool_forward_spec:
  assumes "wf3 inp" "shape3 inp = (H, W, C)" "0 < pool_size M"
  shows "\<exists>out. pool_forward M inp = (Inr out, M\<lparr>pool_last_input := Some inp\<rparr>) \<and> wf3 out \<and>
     shape3 out = (H div pool_size M, W div pool_size M, C) \<and>
     (\<forall>i < H div pool_size M. \<forall>j < W div pool_size M. \<forall>k < C.
        data3 out ! i ! j ! k = window_max inp (pool_size M) i j k)"
proof -
  define P where "P = pool_size M"
  define nh where "nh = H div P"
  define nw where "nw = W div P"
  define R where "R = (\<lambda>i j. slice3 inp (i * P) (i * P + P) (j * P) (j * P + P))"
  define g where "g = (\<lambda>i j. map (window_max inp P i j) [0..<C])"
  have P0: "0 < P" "P \<noteq> 0" using assms(3) by (auto simp: P_def)
  obtain out0 where z: "np_zeros3 (int nh) (int nw) (int C) = Inr out0"
    by (simp add: np_zeros3_def)
  have z0: "shape3 out0 = (nh, nw, C)" "wf3 out0" using np_zeros3_ok[OF z] by auto
  have regs: "pool_iterate_regions M inp = Inr (map (\<lambda>(i, j). (R i j, i, j)) (List.product [0..<nh] [0..<nw]))"
    using assms(2) P0 by (simp add: pool_iterate_regions_def R_def P_def[symmetric] nh_def nw_def)
  have body: "pool_forward_body (R i j, i, j) t = set_ij t i j (g i j)"
    if "(i, j) \<in> set (List.product [0..<nh] [0..<nw])" for i j t
  proof -
    have "i < H div P" "j < W div P" using that by (auto simp: nh_def nw_def)
    from pool_region[OF assms(1,2) P0(1) this] show ?thesis
      by (simp add: pool_forward_body_def R_def g_def)
  qed
  have "\<exists>out'. for_loop pool_forward_body
        (map (\<lambda>(i, j). (R i j, i, j)) (List.product [0..<nh] [0..<nw])) out0 = Inr out' \<and>
     shape3 out' = (nh, nw, C) \<and> wf3 out' \<and>
     (\<forall>i<nh. \<forall>j<nw. data3 out' ! i ! j =
        (if (i, j) \<in> set (List.product [0..<nh] [0..<nw]) then g i j else data3 out0 ! i ! j))"
    by (rule for_loop_set_ij[OF z0]) (use body in \<open>auto simp: g_def\<close>)
  then obtain out where out: "for_loop pool_forward_body
        (map (\<lambda>(i, j). (R i j, i, j)) (List.product [0..<nh] [0..<nw])) out0 = Inr out"
    "shape3 out = (nh, nw, C)" "wf3 out"
    "\<forall>i<nh. \<forall>j<nw. data3 out ! i ! j = g i j"
    by auto
  have "pool_forward M inp = (Inr out, M\<lparr>pool_last_input := Some inp\<rparr>)"
    using assms(2) z out(1) P0 regs
    by (simp add: pool_forward_def Let_def P_def[symmetric] nh_def[symmetric] nw_def[symmetric])
  moreover have "\<forall>i<nh. \<forall>j<nw. \<forall>k<C. data3 out ! i ! j ! k = window_max inp P i j k"
    using out(4) by (simp add: g_def)
  ultimately show ?thesis
    using out(2,3) unfolding P_def nh_def nw_def by blast
qed

text \<open>
  Claim C3. For an input of shape \<open>(H, W, N)\<close> and a pool size \<open>P > 0\<close>,
  \<^verbatim>\<open>MaxPooling2D.forward\<close> returns an array of shape \<open>(H div P, W div P, N)\<close>, with floor
  division, so the rows and columns left over are dropped; its entry \<open>(i, j, k)\<close> is the
  greatest element of channel \<open>k\<close> in the \<open>P \<times> P\<close> window \<open>(i, j)\<close>.
\<close>

theorem pool_forward_correct:
  assumes "wf3 inp" "shape3 inp = (H, W, N)" "0 < pool_size M"
  shows "\<exists>out. fst (pool_forward M inp) = Inr out \<and> wf3 out \<and>
     shape3 out = (H div pool_size M, W div pool_size M, N) \<and>
     (\<forall>i < H div pool_size M. \<forall>j < W div pool_size M. \<forall>k < N.
        data3 out ! i ! j ! k = window_max inp (pool_size M) i j k)"
  using pool_forward_spec[OF assms] by auto

lemma window_max_code:
  "0 < P \<Longrightarrow> window_max t P i j k =
     list_max (map (\<lambda>(a, b). data3 t ! (i * P + a) ! (j * P + b) ! k)
       (List.product [0..<P] [0..<P]))"
  using product_upt_Cons[of P P]
  by (subst list_max_Max) (auto simp: window_max_def atLeast0LessThan)

lemma ex_pool_in_wf: "wf3 ex_pool_in" "shape3 ex_pool_in = (5, 5, 1)"
  by (simp_all add: ex_pool_in_def wf3_def)

theorem pool_forward_correct_witness:
  "wf3 ex_pool_in \<and> shape3 ex_pool_in = (5, 5, 1) \<and> 0 < pool_size ex_pool \<and>
   (\<exists>out. fst (pool_forward ex_pool ex_pool_in) = Inr out \<and> shape3 out = (2, 2, 1) \<and>
      data3 out ! 0 ! 0 ! 0 = 7 \<and> data3 out ! 0 ! 1 ! 0 = 5 \<and>
      data3 out ! 1 ! 0 ! 0 = 4 \<and> data3 out ! 1 ! 1 ! 0 = 1)"
proof -
  have p: "pool_size ex_pool = 2" by (simp add: ex_pool_def MaxPooling2D_init_def)
  have h3: "0 < pool_size ex_pool" by (simp add: p)
  from pool_forward_correct[OF ex_pool_in_wf h3]
  obtain out where o: "fst (pool_forward ex_pool ex_pool_in) = Inr out"
    "shape3 out = (5 div pool_size ex_pool, 5 div pool_size ex_pool, 1)"
    "\<forall>i < 5 div pool_size ex_pool. \<forall>j < 5 div pool_size ex_pool. \<forall>k < 1.
        data3 out ! i ! j ! k = window_max ex_pool_in (pool_size ex_pool) i j k"
    by blast
  have w: "window_max ex_pool_in 2 0 0 0 = 7" "window_max ex_pool_in 2 0 1 0 = 5"
    "window_max ex_pool_in 2 1 0 0 = 4" "window_max ex_pool_in 2 1 1 0 = 1"
    by (simp_all add: window_max_code ex_pool_in_def upt_rec del: upt_Suc)
  have "data3 out ! 0 ! 0 ! 0 = 7" "data3 out ! 0 ! 1 ! 0 = 5"
    "data3 out ! 1 ! 0 ! 0 = 4" "data3 out ! 1 ! 1 ! 0 = 1"
    using o(3) w unfolding p by simp_all
  moreover have "shape3 out = (2, 2, 1)" using o(2) by (simp add: p)
  ultimately show ?thesis using ex_pool_in_wf h3 o(1) by blast
qed

subsection \<open>Pooling: backward\<close>

lemma set3_ok:
  assumes "shape3 t = (h, w, c)" "wf3 t" "i < h" "j < w" "k < c"
  shows "\<exists>t'. set3 t i j k v = Inr t' \<and> shape3 t' = (h, w, c) \<and> wf3 t' \<and>
     (\<forall>y<h. \<forall>x<w. \<forall>f<c. data3 t' ! y ! x ! f =
        (if (y, x, f) = (i, j, k) then v else data3 t ! y ! x ! f))"
proof -
  let ?t' = "t\<lparr>data3 := (data3 t)[i := (data3 t ! i)[j := (data3 t ! i ! j)[k := v]]]\<rparr>"
  note len = wf3_length[OF assms(2,1)]
  have 1: "set3 t i j k v = Inr ?t'" using assms by (simp add: set3_def)
  have 2: "shape3 ?t' = (h, w, c)" using assms by simp
  have 3: "\<forall>y<h. \<forall>x<w. \<forall>f<c. data3 ?t' ! y ! x ! f =
        (if (y, x, f) = (i, j, k) then v else data3 t ! y ! x ! f)"
    using assms len by (auto simp: nth_list_update)
  have 4: "wf3 ?t'"
  proof (rule wf3_intro[OF 2])
    show "length (data3 ?t') = h" using len by simp
    show "\<And>i'. i' < h \<Longrightarrow> length (data3 ?t' ! i') = w"
      using len assms by (auto simp: nth_list_update)
    show "\<And>i' j'. i' < h \<Longrightarrow> j' < w \<Longrightarrow> length (data3 ?t' ! i' ! j') = c"
      using len assms by (auto simp: nth_list_update)
  qed
  from 1 2 3 4 show ?thesis by blast
qed

lemma for_loop_writes:
  assumes "shape3 G = (h, w, c)" "wf3 G"
    and step: "\<And>q T. q \<in> set qs \<Longrightarrow> shape3 T = (h, w, c) \<Longrightarrow> wf3 T \<Longrightarrow>
       \<exists>T'. body q T = Inr T' \<and> shape3 T' = (h, w, c) \<and> wf3 T' \<and>
         (\<forall>y<h. \<forall>x<w. \<forall>f<c. data3 T' ! y ! x ! f =
            (if (y, x, f) \<in> Wr q then V y x f else data3 T ! y ! x ! f))"
  shows "\<exists>G'. for_loop body qs G = Inr G' \<and> shape3 G' = (h, w, c) \<and> wf3 G' \<and>
     (\<forall>y<h. \<forall>x<w. \<forall>f<c. data3 G' ! y ! x ! f =
        (if (y, x, f) \<in> (\<Union>q\<in>set qs. Wr q) then V y x f else data3 G ! y ! x ! f))"
  using assms
proof (induction qs arbitrary: G)
  case Nil
  then show ?case by simp
next
  case (Cons q qs)
  from Cons.prems(3)[of q G] Cons.prems(1,2)
  obtain T where T: "body q G = Inr T" "shape3 T = (h, w, c)" "wf3 T"
    "\<forall>y<h. \<forall>x<w. \<forall>f<c. data3 T ! y ! x ! f =
            (if (y, x, f) \<in> Wr q then V y x f else data3 G ! y ! x ! f)"
    by auto
  have "\<exists>G'. for_loop body qs T = Inr G' \<and> shape3 G' = (h, w, c) \<and> wf3 G' \<and>
     (\<forall>y<h. \<forall>x<w. \<forall>f<c. data3 G' ! y ! x ! f =
        (if (y, x, f) \<in> (\<Union>q\<in>set qs. Wr q) then V y x f else data3 T ! y ! x ! f))"
    by (rule Cons.IH[OF T(2,3)]) (use Cons.prems(3) in auto)
  then obtain G' where G': "for_loop body qs T = Inr G'" "shape3 G' = (h, w, c)" "wf3 G'"
    "\<forall>y<h. \<forall>x<w. \<forall>f<c. data3 G' ! y ! x ! f =
        (if (y, x, f) \<in> (\<Union>q\<in>set qs. Wr q) then V y x f else data3 T ! y ! x ! f)"
    by blast
  have "for_loop body (q # qs) G = Inr G'" using T(1) G'(1) by simp
  moreover have "\<forall>y<h. \<forall>x<w. \<forall>f<c. data3 G' ! y ! x ! f =
        (if (y, x, f) \<in> (\<Union>q\<in>set (q # qs). Wr q) then V y x f else data3 G ! y ! x ! f)"
    using G'(4) T(4) by auto
  ultimately show ?case using G'(2,3) by blast
qed

lemma div_window: "i2 < P \<Longrightarrow> (i * P + i2) div P = (i::nat)"
  by simp

lemma pool_backward_cell_ok:
  assumes "shape3 T = (H, W, C)" "wf3 T" "shape3 d = (nh, nw, C)"
    and "i < nh" "j < nw" "i2 < P" "j2 < P" "f2 < C" "i * P + P \<le> H" "j * P + P \<le> W"
    and "pool_size M = P"
  shows "\<exists>T'. pool_backward_cell M d region amax i j (i2, j2, f2) T = Inr T' \<and>
     shape3 T' = (H, W, C) \<and> wf3 T' \<and>
     (\<forall>y<H. \<forall>x<W. \<forall>f<C. data3 T' ! y ! x ! f =
        (if (y, x, f) \<in> (if data3 region ! i2 ! j2 ! f2 = amax ! f2
                            then {(i * P + i2, j * P + j2, f2)} else {})
         then data3 d ! (y div P) ! (x div P) ! f else data3 T ! y ! x ! f))"
proof (cases "data3 region ! i2 ! j2 ! f2 = amax ! f2")
  case False
  then show ?thesis using assms(1,2) by (simp add: pool_backward_cell_def)
next
  case True
  have g: "get3 d i j f2 = Inr (data3 d ! i ! j ! f2)"
    using assms by (simp add: get3_def)
  have b: "i * P + i2 < H" "j * P + j2 < W" using assms by auto
  from set3_ok[OF assms(1,2) b assms(8), of "data3 d ! i ! j ! f2"]
  obtain T' where T': "set3 T (i * P + i2) (j * P + j2) f2 (data3 d ! i ! j ! f2) = Inr T'"
    "shape3 T' = (H, W, C)" "wf3 T'"
    "\<forall>y<H. \<forall>x<W. \<forall>f<C. data3 T' ! y ! x ! f =
        (if (y, x, f) = (i * P + i2, j * P + j2, f2) then data3 d ! i ! j ! f2
         else data3 T ! y ! x ! f)"
    by blast
  have "pool_backward_cell M d region amax i j (i2, j2, f2) T = Inr T'"
    using True g T'(1) assms(11) by (simp add: pool_backward_cell_def)
  moreover have "\<forall>y<H. \<forall>x<W. \<forall>f<C. data3 T' ! y ! x ! f =
        (if (y, x, f) \<in> (if data3 region ! i2 ! j2 ! f2 = amax ! f2
                            then {(i * P + i2, j * P + j2, f2)} else {})
         then data3 d ! (y div P) ! (x div P) ! f else data3 T ! y ! x ! f)"
    using T'(4) True assms(6,7) by (auto simp: div_window)
  ultimately show ?thesis using T'(2,3) by blast
qed

lemma pool_backward_body_ok:
  assumes "wf3 inp" "shape3 inp = (H, W, C)" "0 < P" "pool_size M = P"
    and "shape3 d = (H div P, W div P, C)" "i < H div P" "j < W div P"
    and "shape3 T = (H, W, C)" "wf3 T"
  shows "\<exists>T'. pool_backward_body M d
        (slice3 inp (i * P) (i * P + P) (j * P) (j * P + P), i, j) T = Inr T' \<and>
     shape3 T' = (H, W, C) \<and> wf3 T' \<and>
     (\<forall>y<H. \<forall>x<W. \<forall>f<C. data3 T' ! y ! x ! f =
        (if y div P = i \<and> x div P = j \<and> data3 inp ! y ! x ! f = window_max inp P i j f
         then data3 d ! (y div P) ! (x div P) ! f else data3 T ! y ! x ! f))"
proof -
  define R where "R = slice3 inp (i * P) (i * P + P) (j * P) (j * P + P)"
  define amax where "amax = map (window_max inp P i j) [0..<C]"
  define cells where "cells = List.product [0..<P] (List.product [0..<P] [0..<C])"
  define Wr where "Wr = (\<lambda>(i2, j2, f2). if data3 R ! i2 ! j2 ! f2 = amax ! f2
       then {(i * P + i2, j * P + j2, f2)} else {})"
  have b: "i * P + P \<le> H" "j * P + P \<le> W" using assms(6,7) by (auto intro: window_le)
  have sr: "shape3 R = (P, P, C)"
    unfolding R_def by (rule slice3_shape[OF assms(2) b])
  have am: "amax01 R = Inr amax"
    unfolding R_def amax_def by (rule pool_region[OF assms(1,2,3,6,7)])
  have step: "\<exists>T'. pool_backward_cell M d R amax i j q T0 = Inr T' \<and>
       shape3 T' = (H, W, C) \<and> wf3 T' \<and>
       (\<forall>y<H. \<forall>x<W. \<forall>f<C. data3 T' ! y ! x ! f =
          (if (y, x, f) \<in> Wr q then data3 d ! (y div P) ! (x div P) ! f
           else data3 T0 ! y ! x ! f))"
    if "q \<in> set cells" "shape3 T0 = (H, W, C)" "wf3 T0" for q T0
  proof -
    obtain i2 j2 f2 where q: "q = (i2, j2, f2)" by (cases q)
    have r: "i2 < P" "j2 < P" "f2 < C" using that(1) q by (auto simp: cells_def)
    show ?thesis
      using pool_backward_cell_ok[OF that(2,3) assms(5,6,7) r b assms(4), of R amax]
      unfolding q Wr_def by simp
  qed
  from for_loop_writes[OF assms(8,9), of cells "pool_backward_cell M d R amax i j" Wr
      "\<lambda>y x f. data3 d ! (y div P) ! (x div P) ! f", OF step]
  obtain T' where T': "for_loop (pool_backward_cell M d R amax i j) cells T = Inr T'"
    "shape3 T' = (H, W, C)" "wf3 T'"
    "\<forall>y<H. \<forall>x<W. \<forall>f<C. data3 T' ! y ! x ! f =
        (if (y, x, f) \<in> (\<Union>q\<in>set cells. Wr q) then data3 d ! (y div P) ! (x div P) ! f
         else data3 T ! y ! x ! f)"
    by blast
  have run: "pool_backward_body M d (R, i, j) T = Inr T'"
    using sr am T'(1) by (simp add: pool_backward_body_def cells_def)
  have mem: "(y, x, f) \<in> (\<Union>q\<in>set cells. Wr q) \<longleftrightarrow>
      (y div P = i \<and> x div P = j \<and> data3 inp ! y ! x ! f = window_max inp P i j f)"
    if "f < C" for y x f
  proof
    assume "(y, x, f) \<in> (\<Union>q\<in>set cells. Wr q)"
    then obtain i2 j2 f2 where q: "(i2, j2, f2) \<in> set cells" "(y, x, f) \<in> Wr (i2, j2, f2)"
      by auto
    then have r: "i2 < P" "j2 < P" "f2 < C" by (auto simp: cells_def)
    from q(2) have e: "data3 R ! i2 ! j2 ! f2 = amax ! f2" "y = i * P + i2" "x = j * P + j2" "f = f2"
      by (auto simp: Wr_def split: if_splits)
    have "data3 R ! i2 ! j2 = data3 inp ! (i * P + i2) ! (j * P + j2)"
      unfolding R_def by (rule slice3_nth[OF assms(1,2) b r(1,2)])
    then show "y div P = i \<and> x div P = j \<and> data3 inp ! y ! x ! f = window_max inp P i j f"
      using e r by (simp add: amax_def)
  next
    assume a: "y div P = i \<and> x div P = j \<and> data3 inp ! y ! x ! f = window_max inp P i j f"
    define i2 where "i2 = y mod P"
    define j2 where "j2 = x mod P"
    have r: "i2 < P" "j2 < P" using assms(3) by (auto simp: i2_def j2_def)
    have yx: "y = i * P + i2" "x = j * P + j2"
      using a by (auto simp: i2_def j2_def)
    have "data3 R ! i2 ! j2 = data3 inp ! (i * P + i2) ! (j * P + j2)"
      unfolding R_def by (rule slice3_nth[OF assms(1,2) b r(1,2)])
    then have "data3 R ! i2 ! j2 ! f = amax ! f"
      using a that yx by (simp add: amax_def)
    then have "(y, x, f) \<in> Wr (i2, j2, f)" using yx by (simp add: Wr_def)
    moreover have "(i2, j2, f) \<in> set cells" using r that by (simp add: cells_def)
    ultimately show "(y, x, f) \<in> (\<Union>q\<in>set cells. Wr q)" by blast
  qed
  have "\<forall>y<H. \<forall>x<W. \<forall>f<C. data3 T' ! y ! x ! f =
        (if y div P = i \<and> x div P = j \<and> data3 inp ! y ! x ! f = window_max inp P i j f
         then data3 d ! (y div P) ! (x div P) ! f else data3 T ! y ! x ! f)"
    using T'(4) mem by simp
  then show ?thesis using run T'(2,3) unfolding R_def by blast
qed

lemma pool_backward_spec:
  assumes "wf3 inp" "shape3 inp = (H, W, C)" "0 < pool_size M"
    and "pool_last_input M = Some inp"
    and "shape3 d = (H div pool_size M, W div pool_size M, C)"
  shows "\<exists>g. pool_backward M d = (Inr g, M) \<and> shape3 g = (H, W, C) \<and> wf3 g \<and>
     (\<forall>y<H. \<forall>x<W. \<forall>k<C. data3 g ! y ! x ! k =
        (if y div pool_size M < H div pool_size M \<and> x div pool_size M < W div pool_size M \<and>
            data3 inp ! y ! x ! k
              = window_max inp (pool_size M) (y div pool_size M) (x div pool_size M) k
         then data3 d ! (y div pool_size M) ! (x div pool_size M) ! k else 0))"
proof -
  define P where "P = pool_size M"
  define nh where "nh = H div P"
  define nw where "nw = W div P"
  define qs where "qs = map (\<lambda>(i, j). (slice3 inp (i * P) (i * P + P) (j * P) (j * P + P), i, j))
      (List.product [0..<nh] [0..<nw])"
  define Wr where "Wr = (\<lambda>(r :: tensor3, i, j). {(y, x, f). y div P = i \<and> x div P = j \<and>
      data3 inp ! y ! x ! f = window_max inp P i j f})"
  have P0: "0 < P" "P \<noteq> 0" using assms(3) by (auto simp: P_def)
  have pm: "pool_size M = P" by (simp add: P_def)
  have sd: "shape3 d = (H div P, W div P, C)" using assms(5) by (simp add: P_def)
  obtain g0 where z: "np_zeros3 (int H) (int W) (int C) = Inr g0"
    by (simp add: np_zeros3_def)
  have z0: "shape3 g0 = (H, W, C)" "wf3 g0" using np_zeros3_ok[OF z] by auto
  have zero: "data3 g0 ! y ! x ! k = 0" if "y < H" "x < W" "k < C" for y x k
    using z that by (auto simp: np_zeros3_def)
  have regs: "pool_iterate_regions M inp = Inr qs"
    using assms(2) P0 by (simp add: pool_iterate_regions_def qs_def P_def[symmetric] nh_def nw_def)
  have step: "\<exists>T'. pool_backward_body M d q T = Inr T' \<and>
       shape3 T' = (H, W, C) \<and> wf3 T' \<and>
       (\<forall>y<H. \<forall>x<W. \<forall>f<C. data3 T' ! y ! x ! f =
          (if (y, x, f) \<in> Wr q then data3 d ! (y div P) ! (x div P) ! f
           else data3 T ! y ! x ! f))"
    if "q \<in> set qs" "shape3 T = (H, W, C)" "wf3 T" for q T
  proof -
    from that(1) obtain i j where q: "q = (slice3 inp (i * P) (i * P + P) (j * P) (j * P + P), i, j)"
      "i < H div P" "j < W div P"
      by (auto simp: qs_def nh_def nw_def)
    show ?thesis
      using pool_backward_body_ok[OF assms(1,2) P0(1) pm sd q(2,3) that(2,3)]
      unfolding q(1) Wr_def by simp
  qed
  from for_loop_writes[OF z0, of qs "pool_backward_body M d" Wr
      "\<lambda>y x f. data3 d ! (y div P) ! (x div P) ! f", OF step]
  obtain g where g: "for_loop (pool_backward_body M d) qs g0 = Inr g"
    "shape3 g = (H, W, C)" "wf3 g"
    "\<forall>y<H. \<forall>x<W. \<forall>f<C. data3 g ! y ! x ! f =
        (if (y, x, f) \<in> (\<Union>q\<in>set qs. Wr q) then data3 d ! (y div P) ! (x div P) ! f
         else data3 g0 ! y ! x ! f)"
    by blast
  have mem: "(y, x, f) \<in> (\<Union>q\<in>set qs. Wr q) \<longleftrightarrow>
      (y div P < nh \<and> x div P < nw \<and>
       data3 inp ! y ! x ! f = window_max inp P (y div P) (x div P) f)" for y x f
    by (auto simp: qs_def Wr_def)
  have run: "pool_backward M d = (Inr g, M)"
    using assms(2,4) z regs g(1) by (simp add: pool_backward_def)
  have "\<forall>y<H. \<forall>x<W. \<forall>k<C. data3 g ! y ! x ! k =
        (if y div P < nh \<and> x div P < nw \<and>
            data3 inp ! y ! x ! k = window_max inp P (y div P) (x div P) k
         then data3 d ! (y div P) ! (x div P) ! k else 0)"
    using g(4) mem zero by simp
  then show ?thesis using run g(2,3) unfolding P_def nh_def nw_def by blast
qed

text \<open>
  Claim C4. After \<^verbatim>\<open>forward\<close> on an input \<open>inp\<close>, for a gradient \<open>d_out\<close> of the shape of the
  forward output, \<^verbatim>\<open>MaxPooling2D.backward\<close> returns an array of the shape of \<open>inp\<close>. An
  entry is the entry of \<open>d_out\<close> for its window where the input attains the maximum of
  that window in its channel, and zero elsewhere (also in the rows and columns that belong
  to no window). So a unique maximum alone receives the gradient of its window, and of
  several positions that tie for the maximum each receives that same gradient, assigned
  and not added up.
\<close>

theorem pool_backward_correct:
  assumes "wf3 inp" "shape3 inp = (H, W, C)" "0 < pool_size M"
    and "pool_forward M inp = (Inr out, M')" "shape3 d_out = shape3 out"
  shows "\<exists>g. fst (pool_backward M' d_out) = Inr g \<and> shape3 g = shape3 inp \<and> wf3 g \<and>
     (\<forall>y<H. \<forall>x<W. \<forall>k<C. data3 g ! y ! x ! k =
        (if y div pool_size M < H div pool_size M \<and> x div pool_size M < W div pool_size M \<and>
            data3 inp ! y ! x ! k
              = window_max inp (pool_size M) (y div pool_size M) (x div pool_size M) k
         then data3 d_out ! (y div pool_size M) ! (x div pool_size M) ! k else 0))"
proof -
  from pool_forward_spec[OF assms(1,2,3)] assms(4)
  have M': "M' = M\<lparr>pool_last_input := Some inp\<rparr>"
    and so: "shape3 out = (H div pool_size M, W div pool_size M, C)"
    by auto
  have 1: "0 < pool_size M'" "pool_last_input M' = Some inp" "pool_size M' = pool_size M"
    using assms(3) by (simp_all add: M')
  have 2: "shape3 d_out = (H div pool_size M', W div pool_size M', C)"
    using assms(5) so 1(3) by simp
  from pool_backward_spec[OF assms(1,2) 1(1,2) 2] show ?thesis
    unfolding 1(3) using assms(2) by auto
qed

theorem pool_backward_correct_witness:
  "wf3 ex_pool_in \<and> shape3 ex_pool_in = (5, 5, 1) \<and> 0 < pool_size ex_pool \<and>
   (\<exists>out M'. pool_forward ex_pool ex_pool_in = (Inr out, M') \<and>
      shape3 ex_pool_grad = shape3 out \<and>
      (\<exists>g. fst (pool_backward M' ex_pool_grad) = Inr g \<and> shape3 g = (5, 5, 1) \<and>
         data3 g ! 0 ! 0 ! 0 = 0 \<and> data3 g ! 1 ! 1 ! 0 = 10 \<and>
         data3 g ! 2 ! 0 ! 0 = 30 \<and> data3 g ! 2 ! 1 ! 0 = 30 \<and> data3 g ! 3 ! 0 ! 0 = 30 \<and>
         data3 g ! 3 ! 1 ! 0 = 0 \<and> data3 g ! 4 ! 4 ! 0 = 0))"
proof -
  have p: "pool_size ex_pool = 2" by (simp add: ex_pool_def MaxPooling2D_init_def)
  have h3: "0 < pool_size ex_pool" by (simp add: p)
  from pool_forward_spec[OF ex_pool_in_wf h3]
  obtain out M' where f: "pool_forward ex_pool ex_pool_in = (Inr out, M')"
    "shape3 out = (2, 2, 1)"
    unfolding p by auto
  have s: "shape3 ex_pool_grad = shape3 out" by (simp add: f(2) ex_pool_grad_def)
  from pool_backward_correct[OF ex_pool_in_wf h3 f(1) s]
  obtain g where g: "fst (pool_backward M' ex_pool_grad) = Inr g" "shape3 g = shape3 ex_pool_in"
    "\<forall>y<5. \<forall>x<5. \<forall>k<1. data3 g ! y ! x ! k =
        (if y div 2 < 5 div 2 \<and> x div 2 < 5 div 2 \<and>
            data3 ex_pool_in ! y ! x ! k = window_max ex_pool_in 2 (y div 2) (x div 2) k
         then data3 ex_pool_grad ! (y div 2) ! (x div 2) ! k else 0)"
    unfolding p by blast
  have w: "window_max ex_pool_in 2 0 0 0 = 7" "window_max ex_pool_in 2 1 0 0 = 4"
    by (simp_all add: window_max_code ex_pool_in_def upt_rec del: upt_Suc)
  have i: "data3 ex_pool_in ! 0 ! 0 ! 0 = 1" "data3 ex_pool_in ! 1 ! 1 ! 0 = 7"
    "data3 ex_pool_in ! 2 ! 0 ! 0 = 4" "data3 ex_pool_in ! 2 ! 1 ! 0 = 4"
    "data3 ex_pool_in ! 3 ! 0 ! 0 = 4" "data3 ex_pool_in ! 3 ! 1 ! 0 = 2"
    by (simp_all add: ex_pool_in_def)
  have d: "data3 ex_pool_grad ! 0 ! 0 ! 0 = 10" "data3 ex_pool_grad ! 1 ! 0 ! 0 = 30"
    by (simp_all add: ex_pool_grad_def)
  have v: "data3 g ! 0 ! 0 ! 0 = 0" "data3 g ! 1 ! 1 ! 0 = 10"
    "data3 g ! 2 ! 0 ! 0 = 30" "data3 g ! 2 ! 1 ! 0 = 30" "data3 g ! 3 ! 0 ! 0 = 30"
    "data3 g ! 3 ! 1 ! 0 = 0" "data3 g ! 4 ! 4 ! 0 = 0"
    using g(3) w i d by simp_all
  have "shape3 g = (5, 5, 1)" using g(2) ex_pool_in_wf(2) by simp
  then show ?thesis using ex_pool_in_wf h3 f(1) s g(1) v by blast
qed

subsection \<open>Convolution: backward\<close>

lemma wf4_intro:
  assumes "shape4 t = (n, h, w, c)" "length (data4 t) = n"
    and "\<And>k. k < n \<Longrightarrow> length (data4 t ! k) = h"
    and "\<And>k i. k < n \<Longrightarrow> i < h \<Longrightarrow> length (data4 t ! k ! i) = w"
    and "\<And>k i j. k < n \<Longrightarrow> i < h \<Longrightarrow> j < w \<Longrightarrow> length (data4 t ! k ! i ! j) = c"
  shows "wf4 t"
  using assms by (auto simp: wf4_def list_all_length)

lemma np_zeros4_ok:
  "shape4 (np_zeros4 (n, a, b, c)) = (n, a, b, c)" "wf4 (np_zeros4 (n, a, b, c))"
  "k < n \<Longrightarrow> x < a \<Longrightarrow> y < b \<Longrightarrow> z < c \<Longrightarrow> data4 (np_zeros4 (n, a, b, c)) ! k ! x ! y ! z = 0"
  by (auto simp: np_zeros4_def wf4_def list_all_length)

lemma iadd_block_ok:
  assumes "shape4 t = (n, a, b, c)" "wf4 t" "f < n" "shape3 r = (a, b, c)"
  shows "\<exists>t'. iadd_block t f s r = Inr t' \<and> shape4 t' = (n, a, b, c) \<and> wf4 t' \<and>
     (\<forall>k<n. \<forall>x<a. \<forall>y<b. \<forall>z<c. data4 t' ! k ! x ! y ! z =
        data4 t ! k ! x ! y ! z + (if k = f then s * data3 r ! x ! y ! z else 0))"
proof -
  let ?blk = "map (\<lambda>x. map (\<lambda>y. map (\<lambda>z.
                 data4 t ! f ! x ! y ! z + s * data3 r ! bidx a x ! bidx b y ! bidx c z)
               [0..<c]) [0..<b]) [0..<a]"
  let ?t' = "t\<lparr>data4 := (data4 t)[f := ?blk]\<rparr>"
  note len = wf4_length[OF assms(2,1)]
  have 1: "iadd_block t f s r = Inr ?t'" using assms by (simp add: iadd_block_def)
  have 2: "shape4 ?t' = (n, a, b, c)" using assms by simp
  have 3: "\<forall>k<n. \<forall>x<a. \<forall>y<b. \<forall>z<c. data4 ?t' ! k ! x ! y ! z =
        data4 t ! k ! x ! y ! z + (if k = f then s * data3 r ! x ! y ! z else 0)"
    using assms len by (auto simp: nth_list_update bidx_less)
  have 4: "wf4 ?t'"
  proof (rule wf4_intro[OF 2])
    show "length (data4 ?t') = n" using len by simp
    show "\<And>k. k < n \<Longrightarrow> length (data4 ?t' ! k) = a"
      using len assms by (auto simp: nth_list_update)
    show "\<And>k i. k < n \<Longrightarrow> i < a \<Longrightarrow> length (data4 ?t' ! k ! i) = b"
      using len assms by (auto simp: nth_list_update)
    show "\<And>k i j. k < n \<Longrightarrow> i < a \<Longrightarrow> j < b \<Longrightarrow> length (data4 ?t' ! k ! i ! j) = c"
      using len assms by (auto simp: nth_list_update)
  qed
  from 1 2 3 4 show ?thesis by blast
qed

lemma for_loop_accum:
  assumes "shape4 G = (n, a, b, c)" "wf4 G"
    and step: "\<And>q T. q \<in> set qs \<Longrightarrow> shape4 T = (n, a, b, c) \<Longrightarrow> wf4 T \<Longrightarrow>
       \<exists>T'. body q T = Inr T' \<and> shape4 T' = (n, a, b, c) \<and> wf4 T' \<and>
         (\<forall>k<n. \<forall>x<a. \<forall>y<b. \<forall>z<c. data4 T' ! k ! x ! y ! z =
            data4 T ! k ! x ! y ! z + delta q k x y z)"
  shows "\<exists>G'. for_loop body qs G = Inr G' \<and> shape4 G' = (n, a, b, c) \<and> wf4 G' \<and>
     (\<forall>k<n. \<forall>x<a. \<forall>y<b. \<forall>z<c. data4 G' ! k ! x ! y ! z =
        data4 G ! k ! x ! y ! z + sum_list (map (\<lambda>q. delta q k x y z) qs))"
  using assms
proof (induction qs arbitrary: G)
  case Nil
  then show ?case by simp
next
  case (Cons q qs)
  from Cons.prems(3)[of q G] Cons.prems(1,2)
  obtain T where T: "body q G = Inr T" "shape4 T = (n, a, b, c)" "wf4 T"
    "\<forall>k<n. \<forall>x<a. \<forall>y<b. \<forall>z<c. data4 T ! k ! x ! y ! z =
            data4 G ! k ! x ! y ! z + delta q k x y z"
    by auto
  have "\<exists>G'. for_loop body qs T = Inr G' \<and> shape4 G' = (n, a, b, c) \<and> wf4 G' \<and>
     (\<forall>k<n. \<forall>x<a. \<forall>y<b. \<forall>z<c. data4 G' ! k ! x ! y ! z =
        data4 T ! k ! x ! y ! z + sum_list (map (\<lambda>q. delta q k x y z) qs))"
    by (rule Cons.IH[OF T(2,3)]) (use Cons.prems(3) in auto)
  then obtain G' where G': "for_loop body qs T = Inr G'" "shape4 G' = (n, a, b, c)" "wf4 G'"
    "\<forall>k<n. \<forall>x<a. \<forall>y<b. \<forall>z<c. data4 G' ! k ! x ! y ! z =
        data4 T ! k ! x ! y ! z + sum_list (map (\<lambda>q. delta q k x y z) qs)"
    by blast
  have "for_loop body (q # qs) G = Inr G'" using T(1) G'(1) by simp
  moreover have "\<forall>k<n. \<forall>x<a. \<forall>y<b. \<forall>z<c. data4 G' ! k ! x ! y ! z =
        data4 G ! k ! x ! y ! z + sum_list (map (\<lambda>q. delta q k x y z) (q # qs))"
    using G'(4) T(4) by simp
  ultimately show ?case using G'(2,3) by blast
qed

lemma sum_list_delta:
  "k < n \<Longrightarrow> sum_list (map (\<lambda>f. if k = f then v f else (0::real)) [0..<n]) = v k"
  by (simp add: interv_sum_list_conv_sum_set_nat)

lemma sum_list_product:
  "sum_list (map g (List.product xs ys))
     = sum_list (map (\<lambda>x. sum_list (map (\<lambda>y. (g (x, y) :: real)) ys)) xs)"
  by (induction xs) (simp_all add: comp_def)

lemma sum_list_product_upt:
  "sum_list (map g (List.product [0..<a] [0..<b])) = (\<Sum>i<a. \<Sum>j<b. (g (i, j) :: real))"
  by (simp add: sum_list_product interv_sum_list_conv_sum_set_nat atLeast0LessThan)

lemma conv_backward_body_ok:
  assumes "shape4 T = (N, F, F, C)" "wf4 T" "num_filters L = N"
    and "shape3 d = (nh, nw, N)" "i < nh" "j < nw" "shape3 r = (F, F, C)"
  shows "\<exists>T'. conv_backward_body L d (r, i, j) T = Inr T' \<and> shape4 T' = (N, F, F, C) \<and> wf4 T' \<and>
     (\<forall>k<N. \<forall>x<F. \<forall>y<F. \<forall>z<C. data4 T' ! k ! x ! y ! z =
        data4 T ! k ! x ! y ! z + data3 d ! i ! j ! k * data3 r ! x ! y ! z)"
proof -
  define body where "body = (\<lambda>f g. (case get3 d i j f of Inl e \<Rightarrow> Inl e
                       | Inr s \<Rightarrow> iadd_block g f s r))"
  have step: "\<exists>T'. body f T0 = Inr T' \<and> shape4 T' = (N, F, F, C) \<and> wf4 T' \<and>
         (\<forall>k<N. \<forall>x<F. \<forall>y<F. \<forall>z<C. data4 T' ! k ! x ! y ! z =
            data4 T0 ! k ! x ! y ! z + (if k = f then data3 d ! i ! j ! f * data3 r ! x ! y ! z else 0))"
    if "f \<in> set [0..<N]" "shape4 T0 = (N, F, F, C)" "wf4 T0" for f T0
  proof -
    have f: "f < N" using that(1) by simp
    have "get3 d i j f = Inr (data3 d ! i ! j ! f)"
      using assms(4,5,6) f by (simp add: get3_def)
    then show ?thesis
      using iadd_block_ok[OF that(2,3) f assms(7), of "data3 d ! i ! j ! f"]
      by (simp add: body_def)
  qed
  from for_loop_accum[OF assms(1,2), of "[0..<N]" body
      "\<lambda>f k x y z. if k = f then data3 d ! i ! j ! f * data3 r ! x ! y ! z else 0", OF step]
  obtain T' where T': "for_loop body [0..<N] T = Inr T'" "shape4 T' = (N, F, F, C)" "wf4 T'"
    "\<forall>k<N. \<forall>x<F. \<forall>y<F. \<forall>z<C. data4 T' ! k ! x ! y ! z =
        data4 T ! k ! x ! y ! z +
        sum_list (map (\<lambda>f. if k = f then data3 d ! i ! j ! f * data3 r ! x ! y ! z else 0) [0..<N])"
    by blast
  have "conv_backward_body L d (r, i, j) T = Inr T'"
    using T'(1) assms(3) by (simp add: conv_backward_body_def body_def)
  moreover have "\<forall>k<N. \<forall>x<F. \<forall>y<F. \<forall>z<C. data4 T' ! k ! x ! y ! z =
        data4 T ! k ! x ! y ! z + data3 d ! i ! j ! k * data3 r ! x ! y ! z"
    using T'(4) by (simp add: sum_list_delta)
  ultimately show ?thesis using T'(2,3) by blast
qed

lemma isub4_scale4:
  assumes "shape4 t = (n, a, b, c)" "wf4 t" "shape4 g = (n, a, b, c)" "wf4 g"
  shows "shape4 (isub4 t (scale4 s g)) = (n, a, b, c)"
    and "wf4 (isub4 t (scale4 s g))"
    and "k < n \<Longrightarrow> x < a \<Longrightarrow> y < b \<Longrightarrow> z < c \<Longrightarrow>
       data4 (isub4 t (scale4 s g)) ! k ! x ! y ! z
         = data4 t ! k ! x ! y ! z - s * data4 g ! k ! x ! y ! z"
proof -
  note lt = wf4_length[OF assms(2,1)]
  note lg = wf4_length[OF assms(4,3)]
  show sh: "shape4 (isub4 t (scale4 s g)) = (n, a, b, c)"
    using assms(1) by (simp add: isub4_def)
  show "wf4 (isub4 t (scale4 s g))"
  proof (rule wf4_intro[OF sh])
    show "length (data4 (isub4 t (scale4 s g))) = n"
      using lt lg by (simp add: isub4_def scale4_def)
    show "\<And>k. k < n \<Longrightarrow> length (data4 (isub4 t (scale4 s g)) ! k) = a"
      using lt lg by (simp add: isub4_def scale4_def)
    show "\<And>k i. k < n \<Longrightarrow> i < a \<Longrightarrow> length (data4 (isub4 t (scale4 s g)) ! k ! i) = b"
      using lt lg by (simp add: isub4_def scale4_def)
    show "\<And>k i j. k < n \<Longrightarrow> i < a \<Longrightarrow> j < b \<Longrightarrow>
        length (data4 (isub4 t (scale4 s g)) ! k ! i ! j) = c"
      using lt lg by (simp add: isub4_def scale4_def)
  qed
  show "k < n \<Longrightarrow> x < a \<Longrightarrow> y < b \<Longrightarrow> z < c \<Longrightarrow>
       data4 (isub4 t (scale4 s g)) ! k ! x ! y ! z
         = data4 t ! k ! x ! y ! z - s * data4 g ! k ! x ! y ! z"
    using lt lg by (simp add: isub4_def scale4_def)
qed

lemma conv_backward_spec:
  assumes "conv_inv C L" "wf3 inp" "shape3 inp = (H, W, C)"
    and "filter_size L \<le> H + 1" "filter_size L \<le> W + 1"
    and "conv_last_input L = Some inp"
    and "shape3 d = (H + 1 - filter_size L, W + 1 - filter_size L, num_filters L)"
  shows "\<exists>new. conv_backward L d lr = (Inr None, L\<lparr>filters := new\<rparr>) \<and>
     shape4 new = shape4 (filters L) \<and> wf4 new \<and>
     (\<forall>f < num_filters L. \<forall>a < filter_size L. \<forall>b < filter_size L. \<forall>c < C.
        data4 new ! f ! a ! b ! c = data4 (filters L) ! f ! a ! b ! c
          - lr * (\<Sum>i < H + 1 - filter_size L. \<Sum>j < W + 1 - filter_size L.
                    data3 d ! i ! j ! f * data3 inp ! (i + a) ! (j + b) ! c))"
proof -
  define F where "F = filter_size L"
  define N where "N = num_filters L"
  define nh where "nh = H + 1 - F"
  define nw where "nw = W + 1 - F"
  define R where "R = (\<lambda>i j. slice3 inp i (i + F) j (j + F))"
  define qs where "qs = map (\<lambda>(i, j). (R i j, i, j)) (List.product [0..<nh] [0..<nw])"
  define delta where "delta = (\<lambda>(q :: tensor3 \<times> nat \<times> nat) k x y z.
      case q of (r, i, j) \<Rightarrow> data3 d ! i ! j ! k * data3 inp ! (i + x) ! (j + y) ! z)"
  have FH: "F \<le> H + 1" "F \<le> W + 1" using assms by (auto simp: F_def)
  have sf: "shape4 (filters L) = (N, F, F, C)" and wff: "wf4 (filters L)"
    using assms(1) by (simp_all add: conv_inv_def F_def N_def)
  have sd: "shape3 d = (nh, nw, N)" using assms(7) by (simp add: nh_def nw_def F_def N_def)
  have ih: "int H - int F + 1 = int nh" "int W - int F + 1 = int nw"
    using FH by (auto simp: nh_def nw_def)
  have regs: "conv_iterate_regions L inp = qs"
    using assms(3) ih by (simp add: conv_iterate_regions_def qs_def R_def F_def[symmetric])
  have step: "\<exists>T'. conv_backward_body L d q T = Inr T' \<and> shape4 T' = (N, F, F, C) \<and> wf4 T' \<and>
         (\<forall>k<N. \<forall>x<F. \<forall>y<F. \<forall>z<C. data4 T' ! k ! x ! y ! z =
            data4 T ! k ! x ! y ! z + delta q k x y z)"
    if "q \<in> set qs" "shape4 T = (N, F, F, C)" "wf4 T" for q T
  proof -
    from that(1) obtain i j where q: "q = (R i j, i, j)" "i < nh" "j < nw"
      by (auto simp: qs_def)
    have b: "i + F \<le> H" "j + F \<le> W" using q(2,3) FH by (auto simp: nh_def nw_def)
    have sr: "shape3 (R i j) = (F, F, C)"
      unfolding R_def by (rule slice3_shape[OF assms(3) b])
    have "data3 (R i j) ! x ! y = data3 inp ! (i + x) ! (j + y)" if "x < F" "y < F" for x y
      unfolding R_def by (rule slice3_nth[OF assms(2,3) b that])
    then show ?thesis
      using conv_backward_body_ok[OF that(2,3) N_def[symmetric] sd q(2,3) sr]
      unfolding q(1) delta_def by simp
  qed
  from for_loop_accum[where qs = qs and body = "conv_backward_body L d" and delta = delta,
      OF np_zeros4_ok(1,2) step]
  obtain G where G: "for_loop (conv_backward_body L d) qs (np_zeros4 (N, F, F, C)) = Inr G"
    "shape4 G = (N, F, F, C)" "wf4 G"
    "\<forall>k<N. \<forall>x<F. \<forall>y<F. \<forall>z<C. data4 G ! k ! x ! y ! z =
        data4 (np_zeros4 (N, F, F, C)) ! k ! x ! y ! z + sum_list (map (\<lambda>q. delta q k x y z) qs)"
    by blast
  have Gval: "data4 G ! k ! x ! y ! z =
      (\<Sum>i<nh. \<Sum>j<nw. data3 d ! i ! j ! k * data3 inp ! (i + x) ! (j + y) ! z)"
    if "k < N" "x < F" "y < F" "z < C" for k x y z
  proof -
    have "map (\<lambda>q. delta q k x y z) qs =
        map (\<lambda>(i, j). data3 d ! i ! j ! k * data3 inp ! (i + x) ! (j + y) ! z)
          (List.product [0..<nh] [0..<nw])"
      by (auto simp: qs_def delta_def)
    then show ?thesis
      using G(4) that by (simp add: np_zeros4_ok(3) sum_list_product_upt)
  qed
  define new where "new = isub4 (filters L) (scale4 lr G)"
  have run: "conv_backward L d lr = (Inr None, L\<lparr>filters := new\<rparr>)"
    using assms(6) regs G(1) sf by (simp add: conv_backward_def new_def)
  note n = isub4_scale4[where s = lr, OF sf wff G(2,3)]
  have "\<forall>f<N. \<forall>a<F. \<forall>b<F. \<forall>c<C. data4 new ! f ! a ! b ! c = data4 (filters L) ! f ! a ! b ! c
          - lr * (\<Sum>i<nh. \<Sum>j<nw. data3 d ! i ! j ! f * data3 inp ! (i + a) ! (j + b) ! c)"
    using n(3) Gval by (simp add: new_def)
  then show ?thesis
    using run n(1,2) sf unfolding new_def[symmetric] F_def N_def nh_def nw_def by auto
qed

lemma conv_forward_snd: "snd (conv_forward L img) = L\<lparr>conv_last_input := Some img\<rparr>"
  by (simp add: conv_forward_def Let_def split: prod.splits sum.splits)

lemma conv_forward_Inr_size:
  assumes "shape3 img = (H, W, C)" "fst (conv_forward L img) = Inr out"
  shows "filter_size L \<le> H + 1" "filter_size L \<le> W + 1"
proof -
  have "\<not> (H + 1 < filter_size L \<or> W + 1 < filter_size L)"
    using conv_forward_negative[OF assms(1), of L] assms(2) by auto
  then show "filter_size L \<le> H + 1" "filter_size L \<le> W + 1" by auto
qed

text \<open>
  Claim C2. After \<^verbatim>\<open>forward\<close> on an image, for a gradient \<open>d_out\<close> of the shape of the
  forward output and any learning rate, \<^verbatim>\<open>Conv2D.backward\<close> returns \<^verbatim>\<open>None\<close> (no gradient
  for the input) and replaces every weight \<open>filters[f, a, b, c]\<close> by itself minus the
  learning rate times the gradient, which is the sum over all window positions \<open>(i, j)\<close>
  of \<open>d_out[i, j, f]\<close> times the entry \<open>(a, b, c)\<close> of the window at \<open>(i, j)\<close>. The shape of
  the filter bank stays.
\<close>

theorem conv_backward_correct:
  assumes "conv_inv C L0" "wf3 img" "shape3 img = (H, W, C)"
    and "conv_forward L0 img = (Inr out, L)" "shape3 d_out = shape3 out"
  shows "\<exists>L'. conv_backward L d_out lr = (Inr None, L') \<and>
     num_filters L' = num_filters L0 \<and> filter_size L' = filter_size L0 \<and>
     shape4 (filters L') = shape4 (filters L0) \<and> wf4 (filters L') \<and>
     (\<forall>f < num_filters L0. \<forall>a < filter_size L0. \<forall>b < filter_size L0. \<forall>c < C.
        data4 (filters L') ! f ! a ! b ! c = data4 (filters L0) ! f ! a ! b ! c
          - lr * (\<Sum>i < H + 1 - filter_size L0. \<Sum>j < W + 1 - filter_size L0.
                    data3 d_out ! i ! j ! f * data3 img ! (i + a) ! (j + b) ! c))"
proof -
  have L: "L = L0\<lparr>conv_last_input := Some img\<rparr>"
    using conv_forward_snd[of L0 img] assms(4) by simp
  have fo: "fst (conv_forward L0 img) = Inr out" using assms(4) by simp
  note le = conv_forward_Inr_size[OF assms(3) fo]
  from conv_forward_general[OF assms(1,2,3) le] fo
  have so: "shape3 out = (H + 1 - filter_size L0, W + 1 - filter_size L0, num_filters L0)"
    by auto
  have 1: "conv_inv C L" "filter_size L = filter_size L0" "num_filters L = num_filters L0"
    "conv_last_input L = Some img" "filters L = filters L0"
    using assms(1) by (simp_all add: L conv_inv_def)
  have 2: "filter_size L \<le> H + 1" "filter_size L \<le> W + 1" using le 1(2) by simp_all
  have 3: "shape3 d_out = (H + 1 - filter_size L, W + 1 - filter_size L, num_filters L)"
    using assms(5) so 1(2,3) by simp
  from conv_backward_spec[OF 1(1) assms(2,3) 2 1(4) 3, of lr] show ?thesis
    unfolding 1(2,3,5) by (auto simp: 1)
qed

theorem conv_backward_correct_witness:
  "conv_inv 3 ex_conv \<and> wf3 ex_img \<and> shape3 ex_img = (2, 2, 3) \<and>
   (\<exists>out L. conv_forward ex_conv ex_img = (Inr out, L) \<and> shape3 ex_conv_grad = shape3 out \<and>
      (\<exists>L'. conv_backward L ex_conv_grad (1 / 2) = (Inr None, L') \<and>
         shape4 (filters L') = (1, 2, 2, 3) \<and>
         data4 (filters L') ! 0 ! 0 ! 0 ! 0 = 0 \<and> data4 (filters L') ! 0 ! 0 ! 0 ! 2 = - 1 \<and>
         data4 (filters L') ! 0 ! 0 ! 1 ! 0 = 1 \<and> data4 (filters L') ! 0 ! 1 ! 0 ! 0 = - 2))"
proof -
  have le: "filter_size ex_conv \<le> 2 + 1" by (simp add: ex_conv_sizes)
  from conv_forward_general[OF ex_conv_inv ex_img_wf le le]
  obtain out where o: "fst (conv_forward ex_conv ex_img) = Inr out" "shape3 out = (1, 1, 1)"
    unfolding ex_conv_sizes by auto
  obtain L where f: "conv_forward ex_conv ex_img = (Inr out, L)"
    using o(1) by (cases "conv_forward ex_conv ex_img") simp
  have s: "shape3 ex_conv_grad = shape3 out" by (simp add: o(2) ex_conv_grad_def)
  from conv_backward_correct[OF ex_conv_inv ex_img_wf f s, of "1 / 2"]
  obtain L' where b: "conv_backward L ex_conv_grad (1 / 2) = (Inr None, L')"
    "shape4 (filters L') = shape4 (filters ex_conv)"
    "\<forall>f < 1. \<forall>a < 2. \<forall>b < 2. \<forall>c < 3.
        data4 (filters L') ! f ! a ! b ! c = data4 (filters ex_conv) ! f ! a ! b ! c
          - (1 / 2) * (\<Sum>i < 2 + 1 - 2. \<Sum>j < 2 + 1 - 2.
                    data3 ex_conv_grad ! i ! j ! f * data3 ex_img ! (i + a) ! (j + b) ! c)"
    unfolding ex_conv_sizes by blast
  have sh: "shape4 (filters L') = (1, 2, 2, 3)"
    using b(2) ex_conv_inv by (simp add: conv_inv_def ex_conv_sizes)
  have v: "data4 (filters L') ! 0 ! 0 ! 0 ! 0 = 0" "data4 (filters L') ! 0 ! 0 ! 0 ! 2 = - 1"
    "data4 (filters L') ! 0 ! 0 ! 1 ! 0 = 1" "data4 (filters L') ! 0 ! 1 ! 0 ! 0 = - 2"
    using b(3) by (simp_all add: ex_conv_filters ex_img_def ex_conv_grad_def)
  show ?thesis using ex_conv_inv ex_img_wf f s b(1) sh v by blast
qed

subsection \<open>The dense layer\<close>

lemma wf2_length:
  assumes "wf2 t" "shape2 t = (h, w)"
  shows "length (data2 t) = h" and "i < h \<Longrightarrow> length (data2 t ! i) = w"
  using assms by (auto simp: wf2_def list_all_length)

lemma chunks_length: "length (chunks n m xs) = n"
  by (induction n arbitrary: xs) auto

lemma chunks_nth_length:
  "n * m \<le> length xs \<Longrightarrow> i < n \<Longrightarrow> length (chunks n m xs ! i) = m"
proof (induction n arbitrary: xs i)
  case 0
  then show ?case by simp
next
  case (Suc n)
  have m: "m \<le> length xs" using Suc.prems(1) by (simp add: add.commute trans_le_add1)
  show ?case
  proof (cases i)
    case 0
    then show ?thesis using m by simp
  next
    case (Suc k)
    then show ?thesis using Suc.IH[of "drop m xs" k] Suc.prems by simp
  qed
qed

lemma concat_chunks: "length xs = n * m \<Longrightarrow> concat (chunks n m xs) = xs"
proof (induction n arbitrary: xs)
  case 0
  then show ?case by simp
next
  case (Suc n)
  have "concat (chunks n m (drop m xs)) = drop m xs"
    by (rule Suc.IH) (use Suc.prems in simp)
  then show ?case by simp
qed

lemma concat_concat_map: "concat (concat xsss) = concat (map concat xsss)"
  by (induction xsss) auto

lemma chunks_nth_chunk:
  "length xs = n * (w * c) \<Longrightarrow> i < n \<Longrightarrow> length (chunks n (w * c) xs ! i) = w * c"
  by (rule chunks_nth_length) simp_all

lemma reshape3_ok:
  assumes "length v = h * w * c"
  shows "\<exists>t. reshape3 v (h, w, c) = Inr t \<and> shape3 t = (h, w, c) \<and> wf3 t \<and> flatten3 t = v"
proof -
  let ?t = "\<lparr>shape3 = (h, w, c), data3 = map (chunks w c) (chunks h (w * c) v)\<rparr>"
  have lv: "length v = h * (w * c)" using assms by (simp add: mult.assoc)
  have 1: "reshape3 v (h, w, c) = Inr ?t" using assms by (simp add: reshape3_def)
  have row: "length (chunks h (w * c) v ! i) = w * c" if "i < h" for i
    using chunks_nth_chunk[OF lv that] .
  have 2: "wf3 ?t"
  proof (rule wf3_intro[of _ h w c])
    show "shape3 ?t = (h, w, c)" by simp
    show "length (data3 ?t) = h" by (simp add: chunks_length)
    show "\<And>i. i < h \<Longrightarrow> length (data3 ?t ! i) = w" by (simp add: chunks_length)
    show "\<And>i j. i < h \<Longrightarrow> j < w \<Longrightarrow> length (data3 ?t ! i ! j) = c"
      using row by (simp add: chunks_length chunks_nth_length)
  qed
  have "map (\<lambda>r. concat (chunks w c r)) (chunks h (w * c) v) = chunks h (w * c) v"
  proof (rule map_idI)
    fix r assume "r \<in> set (chunks h (w * c) v)"
    then obtain i where "i < h" "r = chunks h (w * c) v ! i"
      by (auto simp: in_set_conv_nth chunks_length)
    then show "concat (chunks w c r) = r" using row[of i] by (simp add: concat_chunks)
  qed
  then have "concat (map concat (map (chunks w c) (chunks h (w * c) v))) = v"
    using concat_chunks[OF lv] by (simp add: comp_def)
  then have "concat (concat (map (chunks w c) (chunks h (w * c) v))) = v"
    by (simp add: concat_concat_map)
  then have 3: "flatten3 ?t = v" by (simp add: flatten3_def)
  from 1 2 3 show ?thesis by auto
qed

lemma length_concat_uniform:
  "(\<And>xs. xs \<in> set xss \<Longrightarrow> length xs = m) \<Longrightarrow> length (concat xss) = length xss * m"
  by (induction xss) auto

lemma flatten3_length:
  assumes "wf3 t" "shape3 t = (h, w, c)"
  shows "length (flatten3 t) = h * w * c"
proof -
  note len = wf3_length[OF assms]
  have rows: "length (concat (data3 t)) = h * w"
    using length_concat_uniform[of "data3 t" w] len(1,2)
    by (auto simp: in_set_conv_nth)
  have "length p = c" if "p \<in> set (concat (data3 t))" for p
  proof -
    from that obtain r where r: "r \<in> set (data3 t)" "p \<in> set r" by auto
    then obtain i where i: "i < h" "r = data3 t ! i" using len(1) by (auto simp: in_set_conv_nth)
    from r(2) obtain j where "j < length r" "p = r ! j" by (auto simp: in_set_conv_nth)
    then show ?thesis using i len(2,3) by auto
  qed
  then have "length (concat (concat (data3 t))) = length (concat (data3 t)) * c"
    by (rule length_concat_uniform)
  then show ?thesis using rows by (simp add: flatten3_def)
qed

lemma dense_forward_spec:
  assumes "dense_inv D" "shape2 (weights D) = (L, C)" "wf3 inp" "shape3 inp = (h, w, c)"
    and "h * w * c = L"
  shows "\<exists>totals. dense_forward D inp =
       (Inr totals, D\<lparr>last_input_shape := Some (h, w, c),
                      dense_last_input := Some (flatten3 inp),
                      last_totals := Some totals\<rparr>) \<and>
     totals = map (\<lambda>k. (\<Sum>l<L. flatten3 inp ! l * data2 (weights D) ! l ! k) + biases D ! k) [0..<C]"
proof -
  have lx: "length (flatten3 inp) = L" using flatten3_length[OF assms(3,4)] assms(5) by simp
  have lb: "length (biases D) = C" using assms(1,2) by (simp add: dense_inv_def)
  have 1: "dot_vm (flatten3 inp) (weights D)
      = Inr (map (\<lambda>k. \<Sum>l<L. flatten3 inp ! l * data2 (weights D) ! l ! k) [0..<C])"
    using assms(2) lx
    by (simp add: dot_vm_def interv_sum_list_conv_sum_set_nat atLeast0LessThan)
  have 2: "add_vec (map (\<lambda>k. \<Sum>l<L. flatten3 inp ! l * data2 (weights D) ! l ! k) [0..<C]) (biases D)
      = Inr (map (\<lambda>k. (\<Sum>l<L. flatten3 inp ! l * data2 (weights D) ! l ! k) + biases D ! k) [0..<C])"
    using lb by (simp add: add_vec_def bdim_def bidx_less)
  show ?thesis using 1 2 assms(4) by (simp add: dense_forward_def Let_def)
qed

lemma dense_forward_mismatch:
  assumes "shape2 (weights D) = (L, C)" "wf3 inp" "shape3 inp = (h, w, c)" "h * w * c \<noteq> L"
  shows "fst (dense_forward D inp) = Inl ValueError"
proof -
  have "length (flatten3 inp) \<noteq> L" using flatten3_length[OF assms(2,3)] assms(4) by simp
  then show ?thesis using assms(1) by (simp add: dense_forward_def Let_def dot_vm_def)
qed

lemma wf2_intro:
  assumes "shape2 t = (h, w)" "length (data2 t) = h"
    and "\<And>i. i < h \<Longrightarrow> length (data2 t ! i) = w"
  shows "wf2 t"
  using assms by (auto simp: wf2_def list_all_length)

lemma dense_backward_spec:
  assumes "dense_inv D" "shape2 (weights D) = (L, C)"
    and "dense_last_input D = Some x" "length x = L"
    and "last_input_shape D = Some (h, w, c)" "h * w * c = L" "length d = C"
  shows "\<exists>g wn. dense_backward D d lr =
        (Inr g, D\<lparr>weights := wn, biases := map (\<lambda>k. biases D ! k - lr * d ! k) [0..<C]\<rparr>) \<and>
     shape2 wn = (L, C) \<and> wf2 wn \<and>
     (\<forall>l<L. \<forall>k<C. data2 wn ! l ! k = data2 (weights D) ! l ! k - lr * (x ! l * d ! k)) \<and>
     shape3 g = (h, w, c) \<and> wf3 g \<and>
     flatten3 g = map (\<lambda>l. \<Sum>k<C. data2 (weights D) ! l ! k * d ! k) [0..<L]"
proof -
  define wn where "wn = (weights D)\<lparr>data2 := map (\<lambda>i. map (\<lambda>k.
      data2 (weights D) ! i ! k - data2 (scale2 lr (outer x d)) ! bidx L i ! bidx C k)
        [0..<C]) [0..<L]\<rparr>"
  define gi where "gi = map (\<lambda>l. \<Sum>k<C. data2 (weights D) ! l ! k * d ! k) [0..<L]"
  have lb: "length (biases D) = C" using assms(1,2) by (simp add: dense_inv_def)
  have 1: "dot_mv (weights D) d = Inr gi"
    using assms(2,7)
    by (simp add: dot_mv_def gi_def interv_sum_list_conv_sum_set_nat atLeast0LessThan)
  have so: "shape2 (scale2 lr (outer x d)) = (L, C)"
    using assms(4,7) by (simp add: scale2_def outer_def)
  have 2: "isub2 (weights D) (scale2 lr (outer x d)) = Inr wn"
    using assms(2) so by (simp add: isub2_def wn_def)
  have 3: "isub1 (biases D) (map (\<lambda>v. lr * v) (map (\<lambda>v. v * 1) d))
      = Inr (map (\<lambda>k. biases D ! k - lr * d ! k) [0..<C])"
    using lb assms(7) by (simp add: isub1_def bidx_less)
  have lg: "length gi = h * w * c" using assms(6) by (simp add: gi_def)
  from reshape3_ok[OF lg] obtain g where g: "reshape3 gi (h, w, c) = Inr g"
    "shape3 g = (h, w, c)" "wf3 g" "flatten3 g = gi"
    by blast
  have run: "dense_backward D d lr =
        (Inr g, D\<lparr>weights := wn, biases := map (\<lambda>k. biases D ! k - lr * d ! k) [0..<C]\<rparr>)"
    using assms(3,5) 1 2 3 g(1) by (simp add: dense_backward_def Let_def)
  have sw: "shape2 wn = (L, C)" using assms(2) by (simp add: wn_def)
  have ww: "wf2 wn"
    by (rule wf2_intro[OF sw]) (simp_all add: wn_def)
  have val: "\<forall>l<L. \<forall>k<C. data2 wn ! l ! k = data2 (weights D) ! l ! k - lr * (x ! l * d ! k)"
    using assms(4,7) by (simp add: wn_def scale2_def outer_def bidx_less)
  show ?thesis using run sw ww val g(2,3,4) unfolding gi_def by blast
qed

text \<open>
  Claim C5. After \<^verbatim>\<open>forward\<close> on an input \<open>inp\<close>, for a gradient \<open>d_out\<close> of length \<open>C\<close>
  and any learning rate, \<^verbatim>\<open>Dense.backward\<close> subtracts from the weights the learning rate
  times the outer product of the flattened input and \<open>d_out\<close>, subtracts from the biases
  the learning rate times \<open>d_out\<close>, and returns the product of the weights (as they were
  before the update) and \<open>d_out\<close>, a vector of length \<open>L\<close>, in the shape of \<open>inp\<close>.
\<close>

theorem dense_backward_correct:
  assumes "dense_inv D0" "shape2 (weights D0) = (L, C)" "wf3 inp"
    and "dense_forward D0 inp = (Inr totals, D)" "length d_out = C"
  shows "\<exists>g D'. dense_backward D d_out lr = (Inr g, D') \<and>
     shape2 (weights D') = (L, C) \<and> wf2 (weights D') \<and>
     (\<forall>l<L. \<forall>k<C. data2 (weights D') ! l ! k
        = data2 (weights D0) ! l ! k - lr * (flatten3 inp ! l * d_out ! k)) \<and>
     length (biases D') = C \<and>
     (\<forall>k<C. biases D' ! k = biases D0 ! k - lr * d_out ! k) \<and>
     shape3 g = shape3 inp \<and> wf3 g \<and> length (flatten3 g) = L \<and>
     (\<forall>l<L. flatten3 g ! l = (\<Sum>k<C. data2 (weights D0) ! l ! k * d_out ! k))"
proof -
  obtain h w c where s: "shape3 inp = (h, w, c)" by (cases "shape3 inp") auto
  have sz: "h * w * c = L"
    using dense_forward_mismatch[OF assms(2,3) s] assms(4) by auto
  from dense_forward_spec[OF assms(1,2,3) s sz] assms(4)
  have D: "D = D0\<lparr>last_input_shape := Some (h, w, c),
                    dense_last_input := Some (flatten3 inp),
                    last_totals := Some totals\<rparr>"
    by auto
  have 1: "dense_inv D" "shape2 (weights D) = (L, C)"
    "dense_last_input D = Some (flatten3 inp)" "last_input_shape D = Some (h, w, c)"
    "weights D = weights D0" "biases D = biases D0"
    using assms(1,2) by (simp_all add: D dense_inv_def)
  have lx: "length (flatten3 inp) = L" using flatten3_length[OF assms(3) s] sz by simp
  from dense_backward_spec[OF 1(1,2,3) lx 1(4) sz assms(5), of lr]
  obtain g wn where g: "dense_backward D d_out lr =
        (Inr g, D\<lparr>weights := wn, biases := map (\<lambda>k. biases D ! k - lr * d_out ! k) [0..<C]\<rparr>)"
     "shape2 wn = (L, C)" "wf2 wn"
     "\<forall>l<L. \<forall>k<C. data2 wn ! l ! k = data2 (weights D) ! l ! k - lr * (flatten3 inp ! l * d_out ! k)"
     "shape3 g = (h, w, c)" "wf3 g"
     "flatten3 g = map (\<lambda>l. \<Sum>k<C. data2 (weights D) ! l ! k * d_out ! k) [0..<L]"
    by blast
  have fl: "length (flatten3 g) = L"
    "\<forall>l<L. flatten3 g ! l = (\<Sum>k<C. data2 (weights D0) ! l ! k * d_out ! k)"
    unfolding g(7) by (simp_all add: 1(5))
  have w: "\<forall>l<L. \<forall>k<C. data2 wn ! l ! k
        = data2 (weights D0) ! l ! k - lr * (flatten3 inp ! l * d_out ! k)"
    using g(4) by (simp add: 1(5))
  have sg: "shape3 g = shape3 inp" using g(5) s by simp
  show ?thesis
    unfolding g(1) using g(2,3,6) w fl sg by (simp add: 1(6))
qed

lemma ex_dense_weights:
  "weights ex_dense = \<lparr>shape2 = (2, 2), data2 = [[1, 2], [3, 4]]\<rparr>" "biases ex_dense = [0, 0]"
  by (simp_all add: ex_dense_def Dense_init_def upt_rec numeral_2_eq_2 del: upt_Suc)

lemma ex_dense_inv: "dense_inv ex_dense" "shape2 (weights ex_dense) = (2, 2)"
  by (simp_all add: dense_inv_def ex_dense_weights wf2_def)

lemma ex_dense_in_wf: "wf3 ex_dense_in" "shape3 ex_dense_in = (1, 2, 1)"
  by (simp_all add: ex_dense_in_def wf3_def)

theorem dense_backward_correct_witness:
  "dense_inv ex_dense \<and> shape2 (weights ex_dense) = (2, 2) \<and> wf3 ex_dense_in \<and>
   (\<exists>totals D. dense_forward ex_dense ex_dense_in = (Inr totals, D) \<and>
      length [1, - 1 :: real] = 2 \<and>
      (\<exists>g D'. dense_backward D [1, - 1] (1 / 2) = (Inr g, D') \<and>
         data2 (weights D') ! 0 ! 0 = 1 / 2 \<and> data2 (weights D') ! 0 ! 1 = 5 / 2 \<and>
         data2 (weights D') ! 1 ! 0 = 2 \<and> data2 (weights D') ! 1 ! 1 = 5 \<and>
         biases D' ! 0 = - (1 / 2) \<and> biases D' ! 1 = 1 / 2 \<and>
         shape3 g = (1, 2, 1) \<and> flatten3 g ! 0 = - 1 \<and> flatten3 g ! 1 = - 1))"
proof -
  have sz: "1 * 2 * 1 = (2::nat)" by simp
  from dense_forward_spec[OF ex_dense_inv ex_dense_in_wf sz]
  obtain totals D where f: "dense_forward ex_dense ex_dense_in = (Inr totals, D)" by blast
  have l: "length [1, - 1 :: real] = 2" by simp
  have x: "flatten3 ex_dense_in = [1, 2]" by (simp add: flatten3_def ex_dense_in_def)
  from dense_backward_correct[OF ex_dense_inv ex_dense_in_wf(1) f l, of "1 / 2"]
  obtain g D' where b: "dense_backward D [1, - 1] (1 / 2) = (Inr g, D')"
    "\<forall>l<2. \<forall>k<2. data2 (weights D') ! l ! k
        = data2 (weights ex_dense) ! l ! k - (1 / 2) * (flatten3 ex_dense_in ! l * [1, - 1] ! k)"
    "\<forall>k<2. biases D' ! k = biases ex_dense ! k - (1 / 2) * [1, - 1] ! k"
    "shape3 g = shape3 ex_dense_in"
    "\<forall>l<2. flatten3 g ! l = (\<Sum>k<2. data2 (weights ex_dense) ! l ! k * [1, - 1] ! k)"
    by blast
  have v: "data2 (weights D') ! 0 ! 0 = 1 / 2" "data2 (weights D') ! 0 ! 1 = 5 / 2"
    "data2 (weights D') ! 1 ! 0 = 2" "data2 (weights D') ! 1 ! 1 = 5"
    using b(2) by (simp_all add: ex_dense_weights x)
  have vb: "biases D' ! 0 = - (1 / 2)" "biases D' ! 1 = 1 / 2"
    using b(3) by (simp_all add: ex_dense_weights)
  have vg: "flatten3 g ! 0 = - 1" "flatten3 g ! 1 = - 1"
    using b(5) by (simp_all add: ex_dense_weights numeral_2_eq_2)
  have sg: "shape3 g = (1, 2, 1)" using b(4) ex_dense_in_wf(2) by simp
  show ?thesis using ex_dense_inv ex_dense_in_wf(1) f l b(1) v vb vg sg by blast
qed

subsection \<open>Failures and frame conditions of the forward passes\<close>

lemma Conv2D_init_inv: "conv_inv IMG_CHANNELS (Conv2D_init n fs rnd)"
  by (simp add: conv_inv_def Conv2D_init_def wf4_def list_all_iff)

lemma Conv2D_init_sizes:
  "filter_size (Conv2D_init n fs rnd) = fs" "num_filters (Conv2D_init n fs rnd) = n"
  by (simp_all add: Conv2D_init_def)

text \<open>
  Claim C9, as the source has it. When the filter is larger than the image in a dimension
  by exactly one (\<open>F = H + 1\<close> or \<open>F = W + 1\<close>, and not larger by more in the other),
  \<^verbatim>\<open>Conv2D.forward\<close> returns an array without elements. When it is larger by two or more,
  \<^verbatim>\<open>np.zeros\<close> is called with a negative dimension and the call ends with a
  \<^verbatim>\<open>ValueError\<close>.
\<close>

theorem conv_forward_oversized:
  assumes "conv_inv Cf L" "wf3 img" "shape3 img = (H, W, C)"
    and "H < filter_size L \<or> W < filter_size L"
  shows "if filter_size L \<le> H + 1 \<and> filter_size L \<le> W + 1
         then \<exists>out. fst (conv_forward L img) = Inr out \<and> wf3 out \<and>
                shape3 out = (H + 1 - filter_size L, W + 1 - filter_size L, num_filters L) \<and>
                size3 out = 0
         else fst (conv_forward L img) = Inl ValueError"
proof (cases "filter_size L \<le> H + 1 \<and> filter_size L \<le> W + 1")
  case True
  then have le: "filter_size L \<le> H + 1" "filter_size L \<le> W + 1" by auto
  have c: "H < filter_size L \<or> W < filter_size L \<or> C = Cf \<or> C = 1 \<or> Cf = 1"
    using assms(4) by auto
  from conv_forward_general[OF assms(1,2,3) le c]
  obtain out where o: "fst (conv_forward L img) = Inr out" "wf3 out"
    "shape3 out = (H + 1 - filter_size L, W + 1 - filter_size L, num_filters L)"
    by blast
  have "size3 out = 0" using o(3) assms(4) by (auto simp: size3_def)
  then show ?thesis using True o by auto
next
  case False
  then have "H + 1 < filter_size L \<or> W + 1 < filter_size L" by auto
  from conv_forward_negative[OF assms(3) this] False show ?thesis by auto
qed

theorem conv_forward_oversized_witness:
  "conv_inv 3 ex_conv3 \<and> wf3 ex_img \<and> shape3 ex_img = (2, 2, 3) \<and> 2 < filter_size ex_conv3 \<and>
   (\<exists>out. fst (conv_forward ex_conv3 ex_img) = Inr out \<and> shape3 out = (0, 0, 1) \<and>
      size3 out = 0)"
proof -
  have i: "conv_inv 3 ex_conv3"
    using Conv2D_init_inv[of 1 3] by (simp add: ex_conv3_def IMG_CHANNELS_def)
  have f: "filter_size ex_conv3 = 3" "num_filters ex_conv3 = 1"
    by (simp_all add: ex_conv3_def Conv2D_init_sizes)
  have h: "2 < filter_size ex_conv3 \<or> 2 < filter_size ex_conv3" by (simp add: f)
  from conv_forward_oversized[OF i ex_img_wf h]
  have "\<exists>out. fst (conv_forward ex_conv3 ex_img) = Inr out \<and> shape3 out = (0, 0, 1) \<and>
      size3 out = 0"
    by (auto simp: f)
  then show ?thesis using i ex_img_wf h by auto
qed

text \<open>
  A filter of size 4 on the \<open>2 \<times> 2\<close> image: the claim as written promises an empty result,
  the call raises.
\<close>

theorem conv_forward_oversized_counterexample:
  "shape3 ex_img = (2, 2, 3) \<and> filter_size ex_conv4 = 4 \<and>
   fst (conv_forward ex_conv4 ex_img) = Inl ValueError"
  by (simp add: ex_img_def ex_conv4_def Conv2D_init_def conv_forward_def np_zeros3_def)

lemma pool_forward_snd: "snd (pool_forward M x) = M\<lparr>pool_last_input := Some x\<rparr>"
  by (simp add: pool_forward_def Let_def split: prod.splits sum.splits)

lemma pool_forward_zero:
  "pool_size M = 0 \<Longrightarrow> fst (pool_forward M x) = Inl ZeroDivisionError"
  by (simp add: pool_forward_def Let_def split: prod.splits)

lemma dense_forward_params:
  "weights (snd (dense_forward D x)) = weights D" "biases (snd (dense_forward D x)) = biases D"
  by (simp_all add: dense_forward_def Let_def split: sum.splits)

text \<open>
  Claim C8, as the source has it. No layer checks its input or its configuration; a forward
  call fails only where numpy or Python raises. \<^verbatim>\<open>Conv2D.forward\<close> ends with a
  \<^verbatim>\<open>ValueError\<close> when the filter exceeds the image by two or more in a dimension, or when
  the image has a window and its channel count differs from that of the filters while
  neither is 1; in every other case it returns an array, so an image of one channel is
  broadcast and a filter larger by one gives an empty array, both without an error.
  \<^verbatim>\<open>MaxPooling2D.forward\<close> fails for the pool size 0 only. \<^verbatim>\<open>Dense.forward\<close> ends with a
  \<^verbatim>\<open>ValueError\<close> exactly when the number of elements of its input is not \<^verbatim>\<open>input_len\<close>.
  Failing or not, these calls leave filters, weights and biases as they were.
\<close>

theorem forward_failures:
  assumes "conv_inv Cf L" "wf3 img" "shape3 img = (H, W, C)"
    and "wf3 y"
    and "dense_inv D" "shape2 (weights D) = (Ld, Cd)" "wf3 x" "shape3 x = (h, w, c)"
  shows "(if H + 1 < filter_size L \<or> W + 1 < filter_size L \<or>
            (filter_size L \<le> H \<and> filter_size L \<le> W \<and> C \<noteq> Cf \<and> C \<noteq> 1 \<and> Cf \<noteq> 1)
          then fst (conv_forward L img) = Inl ValueError
          else \<exists>out. fst (conv_forward L img) = Inr out) \<and>
         (if pool_size M = 0 then fst (pool_forward M y) = Inl ZeroDivisionError
          else \<exists>out. fst (pool_forward M y) = Inr out) \<and>
         (if h * w * c \<noteq> Ld then fst (dense_forward D x) = Inl ValueError
          else \<exists>totals. fst (dense_forward D x) = Inr totals) \<and>
         filters (snd (conv_forward L img)) = filters L \<and>
         weights (snd (dense_forward D x)) = weights D \<and>
         biases (snd (dense_forward D x)) = biases D"
proof -
  have 1: "if H + 1 < filter_size L \<or> W + 1 < filter_size L \<or>
            (filter_size L \<le> H \<and> filter_size L \<le> W \<and> C \<noteq> Cf \<and> C \<noteq> 1 \<and> Cf \<noteq> 1)
          then fst (conv_forward L img) = Inl ValueError
          else \<exists>out. fst (conv_forward L img) = Inr out"
  proof (cases "H + 1 < filter_size L \<or> W + 1 < filter_size L")
    case True
    then show ?thesis using conv_forward_negative[OF assms(3) True] by auto
  next
    case nn: False
    show ?thesis
    proof (cases "filter_size L \<le> H \<and> filter_size L \<le> W \<and> C \<noteq> Cf \<and> C \<noteq> 1 \<and> Cf \<noteq> 1")
      case True
      then have "fst (conv_forward L img) = Inl ValueError"
        using conv_forward_mismatch[OF assms(1,3)] by auto
      then show ?thesis using True by simp
    next
      case False
      have le: "filter_size L \<le> H + 1" "filter_size L \<le> W + 1" using nn by auto
      have c: "H < filter_size L \<or> W < filter_size L \<or> C = Cf \<or> C = 1 \<or> Cf = 1"
        using False by auto
      from conv_forward_general[OF assms(1,2,3) le c] nn False show ?thesis by auto
    qed
  qed
  obtain a b d where sy: "shape3 y = (a, b, d)" by (cases "shape3 y") auto
  have 2: "if pool_size M = 0 then fst (pool_forward M y) = Inl ZeroDivisionError
          else \<exists>out. fst (pool_forward M y) = Inr out"
    using pool_forward_zero[of M y] pool_forward_spec[OF assms(4) sy, of M] by auto
  have 3: "if h * w * c \<noteq> Ld then fst (dense_forward D x) = Inl ValueError
          else \<exists>totals. fst (dense_forward D x) = Inr totals"
    using dense_forward_mismatch[OF assms(6,7,8)] dense_forward_spec[OF assms(5,6,7,8)]
    by auto
  show ?thesis
    using 1 2 3 by (simp add: conv_forward_snd dense_forward_params)
qed

lemma ex_two_wf: "wf3 ex_two" "shape3 ex_two = (2, 2, 2)"
  by (simp_all add: ex_two_def wf3_def)

theorem forward_failures_witness:
  "conv_inv 3 ex_conv \<and> wf3 ex_two \<and> shape3 ex_two = (2, 2, 2) \<and> wf3 ex_pool_in \<and>
   dense_inv ex_dense \<and> shape2 (weights ex_dense) = (2, 2) \<and> wf3 ex_dense_in \<and>
   shape3 ex_dense_in = (1, 2, 1) \<and>
   fst (conv_forward ex_conv ex_two) = Inl ValueError \<and>
   (\<exists>out. fst (pool_forward ex_pool ex_pool_in) = Inr out) \<and>
   (\<exists>totals. fst (dense_forward ex_dense ex_dense_in) = Inr totals) \<and>
   filters (snd (conv_forward ex_conv ex_two)) = filters ex_conv"
proof -
  have p: "pool_size ex_pool \<noteq> 0" by (simp add: ex_pool_def MaxPooling2D_init_def)
  from forward_failures[OF ex_conv_inv ex_two_wf ex_pool_in_wf(1) ex_dense_inv ex_dense_in_wf,
      of ex_pool]
  have "fst (conv_forward ex_conv ex_two) = Inl ValueError \<and>
   (\<exists>out. fst (pool_forward ex_pool ex_pool_in) = Inr out) \<and>
   (\<exists>totals. fst (dense_forward ex_dense ex_dense_in) = Inr totals) \<and>
   filters (snd (conv_forward ex_conv ex_two)) = filters ex_conv"
    using p by (simp add: ex_conv_sizes)
  then show ?thesis
    using ex_conv_inv ex_two_wf ex_pool_in_wf(1) ex_dense_inv ex_dense_in_wf by simp
qed

text \<open>
  An image of one channel meets filters of three channels and a filter of size 3 meets the
  \<open>2 \<times> 2\<close> image: neither call fails; the first returns the sum of the window taken three
  times, the second an array without elements.
\<close>

theorem forward_failures_counterexample:
  "shape4 (filters ex_conv) = (1, 2, 2, 3) \<and> shape3 ex_gray = (2, 2, 1) \<and>
   fst (conv_forward ex_conv ex_gray) = Inr \<lparr>shape3 = (1, 1, 1), data3 = [[[30]]]\<rparr> \<and>
   filter_size ex_conv3 = 3 \<and> shape3 ex_img = (2, 2, 3) \<and>
   fst (conv_forward ex_conv3 ex_img) = Inr \<lparr>shape3 = (0, 0, 1), data3 = []\<rparr>"
  by (simp add: conv_forward_def ex_conv_def ex_conv3_def Conv2D_init_def ex_img_def
      ex_gray_def np_zeros3_def conv_iterate_regions_def conv_forward_body_def mul_3_4_def
      bdim_def bidx_def sum_axes123_def set_ij_def slice3_def IMG_CHANNELS_def
      upt_rec numeral_2_eq_2 numeral_3_eq_3 del: upt_Suc)

lemma conv_forward_filters: "conv_forward L x = (r, L') \<Longrightarrow> filters L' = filters L"
  using conv_forward_snd[of L x] by simp

lemma dense_forward_keeps:
  "dense_forward D x = (r, D') \<Longrightarrow> weights D' = weights D \<and> biases D' = biases D"
  using dense_forward_params[of D x] by simp

lemma pool_forward_size: "pool_forward M x = (r, M') \<Longrightarrow> pool_size M' = pool_size M"
  using pool_forward_snd[of M x] by simp

lemma forward_params:
  "filters (conv (snd (forward net img label))) = filters (conv net)"
  "weights (dense (snd (forward net img label))) = weights (dense net)"
  "biases (dense (snd (forward net img label))) = biases (dense net)"
  "pool_size (pool (snd (forward net img label))) = pool_size (pool net)"
  by (auto simp: forward_def Let_def split: prod.splits sum.splits
      dest: conv_forward_filters dense_forward_keeps pool_forward_size)


text \<open>
  Claim C10. Every forward call (of the convolution, the pooling and the dense layer, and
  of the driver \<^verbatim>\<open>forward\<close>) leaves the filter bank, the weight matrix and the bias vector
  as they were, whether it returns or raises; the pool size, the only attribute the pooling
  layer is configured with, stays as well. The forward calls assign the \<^verbatim>\<open>last_\<close>
  attributes only. (That \<^verbatim>\<open>backward\<close> does change the parameters is what the claims C2
  and C5 say.)
\<close>

theorem forward_frame:
  "filters (snd (conv_forward L x)) = filters L \<and>
   pool_size (snd (pool_forward M y)) = pool_size M \<and>
   weights (snd (dense_forward D z)) = weights D \<and>
   biases (snd (dense_forward D z)) = biases D \<and>
   filters (conv (snd (forward net img label))) = filters (conv net) \<and>
   pool_size (pool (snd (forward net img label))) = pool_size (pool net) \<and>
   weights (dense (snd (forward net img label))) = weights (dense net) \<and>
   biases (dense (snd (forward net img label))) = biases (dense net)"
  by (simp add: conv_forward_snd pool_forward_snd dense_forward_params forward_params)

theorem forward_frame_witness:
  "filters (snd (conv_forward ex_conv ex_two)) = filters ex_conv \<and>
   pool_size (snd (pool_forward ex_pool ex_pool_in)) = 2 \<and>
   weights (snd (dense_forward ex_dense ex_dense_in)) = weights ex_dense \<and>
   biases (snd (dense_forward ex_dense ex_dense_in)) = [0, 0] \<and>
   filters (conv (snd (forward ex_net ex_img 0))) = filters ex_conv \<and>
   weights (dense (snd (forward ex_net ex_img 0))) = weights (dense ex_net)"
  using forward_frame[of ex_conv ex_two ex_pool ex_pool_in ex_dense ex_dense_in ex_net ex_img 0]
  by (simp add: ex_dense_weights ex_pool_def MaxPooling2D_init_def ex_net_def)

subsection \<open>Softmax over the reals\<close>

text \<open>
  In exact arithmetic the entries of the softmax are positive and sum to 1, and adding a
  constant to every input changes nothing. These are facts about the reals, not about the
  rounded arithmetic of the source.
\<close>

lemma sum_list_pos_real: "xs \<noteq> [] \<Longrightarrow> (\<And>x. x \<in> set xs \<Longrightarrow> 0 < x) \<Longrightarrow> 0 < sum_list (xs :: real list)"
  by (induction xs) (auto intro: add_pos_nonneg sum_list_nonneg less_imp_le)

lemma sum_list_div: "sum_list (map (\<lambda>e. e / s) xs) = sum_list xs / (s :: real)"
  by (induction xs) (auto simp: add_divide_distrib)

lemma softmax_ok:
  assumes "x \<noteq> []"
  shows "\<exists>out. softmax x = Inr out \<and> length out = length x \<and>
     (\<forall>k < length x. 0 < out ! k) \<and> sum_list out = 1"
proof -
  define ex where "ex = map (\<lambda>v. exp (v - list_max x)) x"
  define out where "out = map (\<lambda>e. e / sum_list ex) ex"
  have ne: "ex \<noteq> []" using assms by (simp add: ex_def)
  have pos: "0 < e" if "e \<in> set ex" for e using that by (auto simp: ex_def)
  have S: "0 < sum_list ex" by (rule sum_list_pos_real[OF ne pos])
  have 1: "softmax x = Inr out" using assms by (simp add: softmax_def ex_def out_def Let_def)
  have 2: "length out = length x" by (simp add: out_def ex_def)
  have 3: "\<forall>k < length x. 0 < out ! k"
    using S by (simp add: out_def ex_def)
  have 4: "sum_list out = 1" using S by (simp add: out_def sum_list_div)
  from 1 2 3 4 show ?thesis by blast
qed

lemma list_max_shift:
  assumes "x \<noteq> []"
  shows "list_max (map (\<lambda>v. v + c) x) = list_max x + c"
proof -
  have m: "mono (\<lambda>v :: real. v + c)" by (rule monoI) simp
  have "list_max (map (\<lambda>v. v + c) x) = Max ((\<lambda>v. v + c) ` set x)"
    using assms by (simp add: list_max_Max)
  also have "\<dots> = Max (set x) + c"
    using mono_Max_commute[OF m, of "set x"] assms by simp
  finally show ?thesis using assms by (simp add: list_max_Max)
qed

lemma softmax_shift: "x \<noteq> [] \<Longrightarrow> softmax (map (\<lambda>v. v + c) x) = softmax x"
  by (simp add: softmax_def list_max_shift comp_def Let_def)

text \<open>
  Claim C7. For every input vector that is not empty (of an empty one \<^verbatim>\<open>np.max\<close> raises),
  \<^verbatim>\<open>softmax\<close> returns a vector of the same length whose entries sum to 1, and it returns
  the same vector when one constant is added to every entry of the input. Both are exact
  over the reals; the source's doubles meet them up to rounding.
\<close>

theorem softmax_correct:
  assumes "x \<noteq> []"
  shows "\<exists>out. softmax x = Inr out \<and> length out = length x \<and> sum_list out = 1 \<and>
     softmax (map (\<lambda>v. v + c) x) = Inr out"
  using softmax_ok[OF assms] softmax_shift[OF assms, of c] by auto

theorem softmax_correct_witness:
  "[1, 3 :: real] \<noteq> [] \<and>
   (\<exists>out. softmax [1, 3] = Inr out \<and> length out = 2 \<and> sum_list out = 1 \<and>
      softmax [3, 5] = Inr out)"
proof -
  have ne: "[1, 3 :: real] \<noteq> []" by simp
  from softmax_correct[OF ne, of 2]
  obtain out where "softmax [1, 3] = Inr out" "length out = 2" "sum_list out = 1"
    "softmax [3, 5] = Inr out"
    by auto
  then show ?thesis by blast
qed

subsection \<open>The driver\<close>

lemma normalize_wf:
  "shape3 (normalize t) = shape3 t" "wf3 t \<Longrightarrow> wf3 (normalize t)"
  by (auto simp: wf3_def normalize_def list_all_length)

lemma py_index_label:
  "label = 0 \<or> label = 1 \<Longrightarrow> py_index 2 label = Inr (nat label)"
  by (auto simp: py_index_def)


text \<open>
  Claim C6. For a network whose layers fit the image (filters of the image's channels and
  of a size that leaves an output, a positive pool size, a dense layer of two nodes whose
  input length is that of the pooled output) and a label 0 or 1, \<^verbatim>\<open>train\<close> runs the forward
  pass, which returns the probabilities \<open>out\<close>, the loss \<open>- ln (out[label])\<close> and the
  accuracy; it builds the gradient \<open>[0, 0]\<close> with \<open>- 1 / out[label]\<close> at the index of the
  label, hands it to \<^verbatim>\<open>Dense.backward\<close>, the result of that to \<^verbatim>\<open>MaxPooling2D.backward\<close>,
  the result of that to \<^verbatim>\<open>Conv2D.backward\<close>, each on the layer as the forward pass left it,
  and returns the loss and the accuracy of the forward pass. No step raises. Nothing is
  said of the size of the numbers: where the probability has underflowed to \<open>0.0\<close> in the
  source, its loss is \<open>inf\<close> and its gradient \<open>-inf\<close>, by these expressions and through
  these calls.
\<close>

theorem train_correct:
  assumes "conv_inv C (conv net)" "0 < pool_size (pool net)" "dense_inv (dense net)"
    and "wf3 im" "shape3 im = (H, W, C)"
    and "filter_size (conv net) \<le> H + 1" "filter_size (conv net) \<le> W + 1"
    and "shape2 (weights (dense net)) =
          ((H + 1 - filter_size (conv net)) div pool_size (pool net)
           * ((W + 1 - filter_size (conv net)) div pool_size (pool net))
           * num_filters (conv net), 2)"
    and "label = 0 \<or> label = 1"
  shows "\<exists>out1 out2 totals out loss acc net1 g1 d' g2 p' c'.
     conv_forward (conv net) (normalize im) = (Inr out1, conv net1) \<and>
     pool_forward (pool net) out1 = (Inr out2, pool net1) \<and>
     dense_forward (dense net) out2 = (Inr totals, dense net1) \<and>
     softmax totals = Inr out \<and> length out = 2 \<and>
     loss = - ln (out ! nat label) \<and>
     acc = (if int (argmax out) = label then 1 else 0) \<and>
     forward net im label = (Inr (out, loss, acc), net1) \<and>
     dense_backward (dense net1) ((replicate 2 0)[nat label := - 1 / out ! nat label]) lr
       = (Inr g1, d') \<and>
     pool_backward (pool net1) g1 = (Inr g2, p') \<and>
     conv_backward (conv net1) g2 lr = (Inr None, c') \<and>
     train net im label lr = (Inr (loss, acc), net1\<lparr>dense := d', pool := p', conv := c'\<rparr>)"
proof -
  define F where "F = filter_size (conv net)"
  define N where "N = num_filters (conv net)"
  define P where "P = pool_size (pool net)"
  define nh where "nh = H + 1 - F"
  define nw where "nw = W + 1 - F"
  define Ld where "Ld = nh div P * (nw div P) * N"
  define nim where "nim = normalize im"
  define c1 where "c1 = (conv net)\<lparr>conv_last_input := Some nim\<rparr>"
  have nwf: "wf3 nim" and nsh: "shape3 nim = (H, W, C)"
    using assms(4,5) by (simp_all add: nim_def normalize_wf)
  have cc: "H < filter_size (conv net) \<or> W < filter_size (conv net) \<or> C = C \<or> C = 1 \<or> C = 1"
    by simp
  from conv_forward_general[OF assms(1) nwf nsh assms(6,7) cc]
  obtain out1 where o1: "fst (conv_forward (conv net) nim) = Inr out1" "wf3 out1"
    "shape3 out1 = (nh, nw, N)"
    unfolding nh_def nw_def F_def N_def by blast
  have f1: "conv_forward (conv net) nim = (Inr out1, c1)"
    using o1(1) conv_forward_snd[of "conv net" nim] unfolding c1_def
    by (metis prod.collapse)
  define p1 where "p1 = (pool net)\<lparr>pool_last_input := Some out1\<rparr>"
  from pool_forward_spec[OF o1(2,3) assms(2)]
  obtain out2 where o2: "pool_forward (pool net) out1 = (Inr out2, p1)" "wf3 out2"
    "shape3 out2 = (nh div P, nw div P, N)"
    unfolding p1_def P_def by blast
  have sw: "shape2 (weights (dense net)) = (Ld, 2)"
    using assms(8) by (simp add: Ld_def nh_def nw_def F_def N_def P_def)
  have sz: "nh div P * (nw div P) * N = Ld" by (simp add: Ld_def)
  from dense_forward_spec[OF assms(3) sw o2(2,3) sz]
  obtain totals where t: "dense_forward (dense net) out2 =
       (Inr totals, (dense net)\<lparr>last_input_shape := Some (nh div P, nw div P, N),
                      dense_last_input := Some (flatten3 out2),
                      last_totals := Some totals\<rparr>)"
     "length totals = 2"
    by auto
  define d1 where "d1 = (dense net)\<lparr>last_input_shape := Some (nh div P, nw div P, N),
                      dense_last_input := Some (flatten3 out2),
                      last_totals := Some totals\<rparr>"
  have tne: "totals \<noteq> []" using t(2) by auto
  from softmax_ok[OF tne] obtain out where so: "softmax totals = Inr out" "length out = 2"
    using t(2) by auto
  define k where "k = nat label"
  have k2: "k < 2" using assms(9) by (auto simp: k_def)
  have pk: "py_index 2 label = Inr k" using py_index_label[OF assms(9)] by (simp add: k_def)
  define loss where "loss = - ln (out ! k)"
  define acc :: nat where "acc = (if int (argmax out) = label then 1 else 0)"
  define net1 where "net1 = net\<lparr>conv := c1, pool := p1, dense := d1\<rparr>"
  have ce: "cross_entropy_loss out label = Inr loss"
    using pk so(2) by (simp add: cross_entropy_loss_def loss_def)
  have fw: "forward net im label = (Inr (out, loss, acc), net1)"
    using f1 o2(1) t(1) so(1) ce
    by (simp add: forward_def nim_def[symmetric] d1_def[symmetric] net1_def acc_def Let_def)
  define grad where "grad = (replicate 2 (0::real))[k := - 1 / out ! k]"
  have 1: "dense_inv d1" "shape2 (weights d1) = (Ld, 2)"
    "dense_last_input d1 = Some (flatten3 out2)"
    "last_input_shape d1 = Some (nh div P, nw div P, N)"
    using assms(3) sw by (simp_all add: d1_def dense_inv_def)
  have lx: "length (flatten3 out2) = Ld" using flatten3_length[OF o2(2,3)] sz by simp
  have lg: "length grad = 2" by (simp add: grad_def)
  from dense_backward_spec[OF 1(1,2,3) lx 1(4) sz lg, of lr]
  obtain g1 d' where b1: "dense_backward d1 grad lr = (Inr g1, d')"
    "shape3 g1 = (nh div P, nw div P, N)" "wf3 g1"
    by blast
  have 2: "0 < pool_size p1" "pool_last_input p1 = Some out1" "pool_size p1 = P"
    using assms(2) by (simp_all add: p1_def P_def)
  have sg1: "shape3 g1 = (nh div pool_size p1, nw div pool_size p1, N)"
    using b1(2) 2(3) by simp
  from pool_backward_spec[OF o1(2,3) 2(1,2) sg1]
  obtain g2 where b2: "pool_backward p1 g1 = (Inr g2, p1)" "shape3 g2 = (nh, nw, N)"
    by blast
  have 3: "conv_inv C c1" "filter_size c1 = F" "num_filters c1 = N"
    "conv_last_input c1 = Some nim"
    using assms(1) by (simp_all add: c1_def conv_inv_def F_def N_def)
  have le: "filter_size c1 \<le> H + 1" "filter_size c1 \<le> W + 1"
    using assms(6,7) 3(2) by (simp_all add: F_def)
  have sg2: "shape3 g2 = (H + 1 - filter_size c1, W + 1 - filter_size c1, num_filters c1)"
    using b2(2) 3(2,3) by (simp add: nh_def nw_def)
  from conv_backward_spec[OF 3(1) nwf nsh le 3(4) sg2, of lr]
  obtain c' where b3: "conv_backward c1 g2 lr = (Inr None, c')" by blast
  have n1: "conv net1 = c1" "pool net1 = p1" "dense net1 = d1" by (simp_all add: net1_def)
  have tr: "train net im label lr = (Inr (loss, acc), net1\<lparr>dense := d', pool := p1, conv := c'\<rparr>)"
    using fw pk so(2) b1(1) b2(1) b3
    by (simp add: train_def Let_def n1 grad_def)
  show ?thesis
    using f1 o2(1) t(1) so(1,2) fw b1(1) b2(1) b3 tr
    unfolding n1[symmetric] nim_def d1_def[symmetric] loss_def acc_def grad_def k_def
    by blast
qed

lemma ex_net_parts:
  "conv ex_net = ex_conv" "pool_size (pool ex_net) = 1"
  "weights (dense ex_net) = \<lparr>shape2 = (1, 2), data2 = [[0, 0]]\<rparr>" "biases (dense ex_net) = [0, 0]"
  by (simp_all add: ex_net_def MaxPooling2D_init_def Dense_init_def upt_rec numeral_2_eq_2
      del: upt_Suc)

lemma ex_net_totals:
  assumes "dense_forward (dense ex_net) x = (Inr totals, D)"
  shows "totals = [0, 0]"
  using assms
  by (auto simp: dense_forward_def Let_def dot_vm_def add_vec_def bdim_def bidx_def ex_net_parts
      upt_rec numeral_2_eq_2 split: if_splits simp del: upt_Suc)

lemma softmax_zeros: "softmax [0, 0] = Inr [1 / 2, 1 / 2]"
  by (simp add: softmax_def)

theorem train_correct_witness:
  "conv_inv 3 (conv ex_net) \<and> 0 < pool_size (pool ex_net) \<and> dense_inv (dense ex_net) \<and>
   wf3 ex_img \<and> shape3 ex_img = (2, 2, 3) \<and> filter_size (conv ex_net) \<le> 2 + 1 \<and>
   shape2 (weights (dense ex_net)) = (1, 2) \<and>
   (\<exists>net'. train ex_net ex_img 0 (1 / 2) = (Inr (- ln (1 / 2), 1), net'))"
proof -
  have h1: "conv_inv 3 (conv ex_net)" by (simp add: ex_net_parts ex_conv_inv)
  have h2: "0 < pool_size (pool ex_net)" by (simp add: ex_net_parts)
  have h3: "dense_inv (dense ex_net)" by (simp add: dense_inv_def ex_net_parts wf2_def)
  have h6: "filter_size (conv ex_net) \<le> 2 + 1" by (simp add: ex_net_parts ex_conv_sizes)
  have h8: "shape2 (weights (dense ex_net)) =
          ((2 + 1 - filter_size (conv ex_net)) div pool_size (pool ex_net)
           * ((2 + 1 - filter_size (conv ex_net)) div pool_size (pool ex_net))
           * num_filters (conv ex_net), 2)"
    by (simp add: ex_net_parts ex_conv_sizes)
  have h9: "(0::int) = 0 \<or> (0::int) = 1" by simp
  from train_correct[OF h1 h2 h3 ex_img_wf h6 h6 h8 h9, of "1 / 2"]
  obtain out2 totals out loss acc net1 d' p' c' D where r:
     "dense_forward (dense ex_net) out2 = (Inr totals, D)"
     "softmax totals = Inr out"
     "loss = - ln (out ! nat 0)"
     "acc = (if int (argmax out) = 0 then 1 else 0)"
     "train ex_net ex_img 0 (1 / 2) = (Inr (loss, acc), net1\<lparr>dense := d', pool := p', conv := c'\<rparr>)"
    by blast
  have "totals = [0, 0]" by (rule ex_net_totals[OF r(1)])
  then have out: "out = [1 / 2, 1 / 2]" using r(2) by (simp add: softmax_zeros)
  have "loss = - ln (1 / 2)" using r(3) out by simp
  moreover have "acc = 1" using r(4) out by (simp add: argmax_def upt_rec numeral_2_eq_2)
  ultimately have "\<exists>net'. train ex_net ex_img 0 (1 / 2) = (Inr (- ln (1 / 2), 1), net')"
    using r(5) by auto
  then show ?thesis
    using h1 h2 h3 ex_img_wf h6 by (simp add: ex_net_parts)
qed

end
